theory Spec2Isabelle
  imports Complex_Main
begin

section \<open>Python exceptions as values\<close>

text \<open>
  Every exception class that the modelled code can let escape is a constructor; the
  string is the message.  The specification's abstract error names correspond to the
  classes the code raises: \<open>InvalidArgument\<close> is \<open>ValueError\<close>, \<open>NotSupported\<close> is
  \<open>NotImplementedError\<close>, \<open>InvalidDimension\<close> is the \<open>AssertionError\<close> of the
  \<^verbatim>\<open>assert\<close> statement in \<^verbatim>\<open>Mesh.__init__\<close>.  Messages of exceptions raised inside numpy
  are abbreviated.
\<close>

datatype error =
    ValueError string
  | IndexError string
  | AxisError string
  | TypeError string
  | NotImplementedError string
  | NameError string
  | AssertionError

definition bindE :: "error + 'a \<Rightarrow> ('a \<Rightarrow> error + 'b) \<Rightarrow> error + 'b" where
  "bindE m f = (case m of Inl e \<Rightarrow> Inl e | Inr x \<Rightarrow> f x)"

text \<open>\<^verbatim>\<open>str(n)\<close> for an integer, as \<^verbatim>\<open>'{}'.format(n)\<close> prints it.\<close>

definition digit_char :: "nat \<Rightarrow> char" where
  "digit_char n = ''0123456789'' ! n"

function str_nat :: "nat \<Rightarrow> string" where
  "str_nat n = (if n < 10 then [digit_char n] else str_nat (n div 10) @ [digit_char (n mod 10)])"
  by pat_completeness auto
termination
  by (relation "measure id") auto

declare str_nat.simps [simp del]

definition str_int :: "int \<Rightarrow> string" where
  "str_int i = (if i < 0 then CHR ''-'' # str_nat (nat (- i)) else str_nat (nat i))"

text \<open>Indexing a tuple or list with a Python integer: negative indices count from the end.\<close>

definition py_index :: "'a list \<Rightarrow> int \<Rightarrow> error + 'a" where
  "py_index xs i =
     (if 0 \<le> i \<and> i < int (length xs) then Inr (xs ! nat i)
      else if i < 0 \<and> - int (length xs) \<le> i then Inr (xs ! nat (i + int (length xs)))
      else Inl (IndexError ''index out of range''))"

text \<open>The slice \<^verbatim>\<open>t[:k]\<close> of a tuple: a negative bound counts from the end, and
  bounds beyond either end are clipped.\<close>

definition py_slice_to :: "'a list \<Rightarrow> int \<Rightarrow> 'a list" where
  "py_slice_to xs k = (if k < 0 then take (nat (int (length xs) + k)) xs else take (nat k) xs)"

section \<open>Floating-point numbers\<close>

text \<open>
  A \<^verbatim>\<open>float64\<close> is a finite IEEE 754 binary64 number, given by its value.  An
  arithmetic operation returns the exact result rounded to the nearest number with 53
  significant bits, ties going to the even significand; below 2 to the power -1022 the
  spacing is that of the subnormal numbers.  Infinities, NaN and the sign of zero are not
  part of the model: it describes the operations whose results stay below 2 to the power
  1024 in magnitude; division by zero, which gives an infinity or NaN in numpy, has HOL's
  value 0 here.
\<close>

definition pow2 :: "int \<Rightarrow> real" where
  "pow2 e = (if 0 \<le> e then 2 ^ nat e else 1 / 2 ^ nat (- e))"

fun bit_length :: "nat \<Rightarrow> nat" where
  "bit_length n = (if n = 0 then 0 else Suc (bit_length (n div 2)))"

declare bit_length.simps [simp del]

text \<open>The exponent \<open>e\<close> for which \<open>|x|\<close> lies between \<open>pow2 e\<close> (included) and
  \<open>pow2 (e + 1)\<close> (excluded), for \<open>x\<close> other than 0.\<close>

definition exponent :: "real \<Rightarrow> int" where
  "exponent x =
     (if 1 \<le> \<bar>x\<bar> then int (bit_length (nat \<lfloor>\<bar>x\<bar>\<rfloor>)) - 1
      else let k = int (bit_length (nat \<lfloor>1 / \<bar>x\<bar>\<rfloor>)) - 1
           in if \<bar>x\<bar> = pow2 (- k) then - k else - k - 1)"

definition round_half_even :: "real \<Rightarrow> int" where
  "round_half_even m =
     (let f = \<lfloor>m\<rfloor>; r = m - of_int f
      in if r < 1 / 2 then f else if 1 / 2 < r then f + 1 else if even f then f else f + 1)"

definition round64 :: "real \<Rightarrow> real" where
  "round64 x =
     (if x = 0 then 0
      else let ulp = pow2 (max (exponent x) (- 1022) - 52)
           in of_int (round_half_even (x / ulp)) * ulp)"

datatype float64 = F64 real

fun val :: "float64 \<Rightarrow> real" where
  "val (F64 x) = x"

instantiation float64 :: "{zero, one, plus, minus, uminus, times, inverse, abs, ord}"
begin

definition zero_float64 :: float64 where
  "zero_float64 = F64 0"

definition one_float64 :: float64 where
  "one_float64 = F64 1"

definition plus_float64 :: "float64 \<Rightarrow> float64 \<Rightarrow> float64" where
  "plus_float64 a b = F64 (round64 (val a + val b))"

definition minus_float64 :: "float64 \<Rightarrow> float64 \<Rightarrow> float64" where
  "minus_float64 a b = F64 (round64 (val a - val b))"

definition uminus_float64 :: "float64 \<Rightarrow> float64" where
  "uminus_float64 a = F64 (- val a)"

definition times_float64 :: "float64 \<Rightarrow> float64 \<Rightarrow> float64" where
  "times_float64 a b = F64 (round64 (val a * val b))"

definition divide_float64 :: "float64 \<Rightarrow> float64 \<Rightarrow> float64" where
  "divide_float64 a b = F64 (round64 (val a / val b))"

definition inverse_float64 :: "float64 \<Rightarrow> float64" where
  "inverse_float64 a = F64 (round64 (1 / val a))"

definition abs_float64 :: "float64 \<Rightarrow> float64" where
  "abs_float64 a = F64 \<bar>val a\<bar>"

definition less_eq_float64 :: "float64 \<Rightarrow> float64 \<Rightarrow> bool" where
  "less_eq_float64 a b \<longleftrightarrow> val a \<le> val b"

definition less_float64 :: "float64 \<Rightarrow> float64 \<Rightarrow> bool" where
  "less_float64 a b \<longleftrightarrow> val a < val b"

instance ..

end

text \<open>
  The arrays below are polymorphic in the type of their entries.  For a float array that
  type is \<open>float64\<close>, the arithmetic of the program, or \<open>real\<close>, exact arithmetic.
  \<open>seq_sum\<close> adds the entries of a list from left to right, starting from 0, as numpy
  does along the short axes that the code reduces (its pairwise summation regroups the
  terms only on a contiguous axis of eight entries or more); \<open>count_of\<close> is the
  conversion of a count to a float.
\<close>

definition seq_sum :: "'a::{zero, plus} list \<Rightarrow> 'a" where
  "seq_sum xs = foldl (+) 0 xs"

primrec count_of :: "nat \<Rightarrow> 'a::{zero, one, plus}" where
  "count_of 0 = 0"
| "count_of (Suc n) = count_of n + 1"

section \<open>numpy arrays\<close>

text \<open>
  An \<^verbatim>\<open>ndarray\<close> is its shape together with the entry at every multi-index.  Only the
  entries at indices inside the shape belong to the array; the function's values elsewhere
  carry no meaning and no theorem below speaks about them.
\<close>

record 'a ndarray =
  shape :: "nat list"
  item :: "nat list \<Rightarrow> 'a"

definition indices_of :: "nat list \<Rightarrow> nat list list" where
  "indices_of sh = product_lists (map (\<lambda>n. [0..<n]) sh)"

definition array_all :: "('a \<Rightarrow> bool) \<Rightarrow> 'a ndarray \<Rightarrow> bool" where
  "array_all P a = list_all (\<lambda>idx. P (item a idx)) (indices_of (shape a))"

definition np_size :: "'a ndarray \<Rightarrow> nat" where
  "np_size a = prod_list (shape a)"

definition np_size_axis :: "'a ndarray \<Rightarrow> int \<Rightarrow> error + nat" where
  "np_size_axis a axis = py_index (shape a) axis"

definition scalar :: "'a \<Rightarrow> 'a ndarray" where
  "scalar c = \<lparr>shape = [], item = (\<lambda>idx. c)\<rparr>"

definition full :: "nat list \<Rightarrow> 'a \<Rightarrow> 'a ndarray" where
  "full sh c = \<lparr>shape = sh, item = (\<lambda>idx. c)\<rparr>"

definition zeros :: "nat list \<Rightarrow> 'a::zero ndarray" where
  "zeros sh = full sh 0"

definition ones :: "nat list \<Rightarrow> 'a::one ndarray" where
  "ones sh = full sh 1"

definition map_array :: "('a \<Rightarrow> 'b) \<Rightarrow> 'a ndarray \<Rightarrow> 'b ndarray" where
  "map_array f a = \<lparr>shape = shape a, item = (\<lambda>idx. f (item a idx))\<rparr>"

definition np_abs :: "'a::abs ndarray \<Rightarrow> 'a ndarray" where
  "np_abs a = map_array abs a"

subsection \<open>Broadcasting\<close>

text \<open>Shapes are aligned at their last axis; two lengths are compatible when they are
  equal or one of them is 1.\<close>

fun bshape_rev :: "nat list \<Rightarrow> nat list \<Rightarrow> nat list option" where
  "bshape_rev [] ys = Some ys"
| "bshape_rev (x # xs) [] = Some (x # xs)"
| "bshape_rev (x # xs) (y # ys) =
     (if x = y \<or> y = 1 then map_option ((#) x) (bshape_rev xs ys)
      else if x = 1 then map_option ((#) y) (bshape_rev xs ys)
      else None)"

definition broadcast_shapes :: "nat list \<Rightarrow> nat list \<Rightarrow> nat list option" where
  "broadcast_shapes s t = map_option rev (bshape_rev (rev s) (rev t))"

text \<open>The index into an operand of shape \<open>s\<close> that the index \<open>idx\<close> of the broadcast
  result reads.\<close>

definition bidx :: "nat list \<Rightarrow> nat list \<Rightarrow> nat list" where
  "bidx s idx = map2 (\<lambda>n i. if n = 1 then 0 else i) s (drop (length idx - length s) idx)"

definition binop :: "('a \<Rightarrow> 'b \<Rightarrow> 'c) \<Rightarrow> 'a ndarray \<Rightarrow> 'b ndarray \<Rightarrow> error + 'c ndarray" where
  "binop f a b =
     (case broadcast_shapes (shape a) (shape b) of
        None \<Rightarrow> Inl (ValueError ''operands could not be broadcast together'')
      | Some sh \<Rightarrow>
          Inr \<lparr>shape = sh,
               item = (\<lambda>idx. f (item a (bidx (shape a) idx)) (item b (bidx (shape b) idx)))\<rparr>)"

text \<open>Assigning a value array to a selection of shape \<open>sh\<close>: leading axes of length 1
  that the selection does not have are dropped, then the value is broadcast to \<open>sh\<close>.\<close>

fun strip_leading :: "nat \<Rightarrow> nat list \<Rightarrow> nat list" where
  "strip_leading k [] = []"
| "strip_leading k (n # ns) =
     (if k < Suc (length ns) \<and> n = 1 then strip_leading k ns else n # ns)"

definition broadcast_to :: "'a ndarray \<Rightarrow> nat list \<Rightarrow> error + 'a ndarray" where
  "broadcast_to v sh =
     (let vs = strip_leading (length sh) (shape v)
      in if length vs \<le> length sh \<and> broadcast_shapes vs sh = Some sh
         then Inr \<lparr>shape = sh,
                   item = (\<lambda>idx. item v (replicate (length (shape v) - length vs) 0 @ bidx vs idx))\<rparr>
         else Inl (ValueError ''could not broadcast input array''))"

subsection \<open>Reductions along an axis\<close>

definition normalize_axis :: "int \<Rightarrow> nat \<Rightarrow> error + nat" where
  "normalize_axis axis ndim =
     (if - int ndim \<le> axis \<and> axis < int ndim
      then Inr (nat (if axis < 0 then axis + int ndim else axis))
      else Inl (AxisError ''axis is out of bounds''))"

definition np_sum :: "'a::{zero, plus} ndarray \<Rightarrow> int \<Rightarrow> error + 'a ndarray" where
  "np_sum a axis =
     bindE (normalize_axis axis (length (shape a))) (\<lambda>ax.
       Inr \<lparr>shape = take ax (shape a) @ drop (Suc ax) (shape a),
            item = (\<lambda>idx. seq_sum (map (\<lambda>i. item a (take ax idx @ i # drop ax idx))
                                     [0..<shape a ! ax]))\<rparr>)"

subsection \<open>Basic indexing\<close>

text \<open>The items of an index expression \<^verbatim>\<open>a[...]\<close>: \<^verbatim>\<open>:\<close>, \<^verbatim>\<open>None\<close> and an integer.\<close>

datatype ix = Colon | NewAxis | Ix int

text \<open>
  \<open>view items sh\<close> is the shape of the selection, the map from an index of the selection
  to the index of the array it stands for, and the partial inverse of that map.  Axes not
  mentioned by the items are kept whole.
\<close>

fun view :: "ix list \<Rightarrow> nat list \<Rightarrow>
    error + (nat list \<times> (nat list \<Rightarrow> nat list) \<times> (nat list \<Rightarrow> nat list option))" where
  "view [] sh = Inr (sh, (\<lambda>idx. idx), (\<lambda>idx. Some idx))"
| "view (NewAxis # its) sh =
     bindE (view its sh) (\<lambda>(rs, fwd, inv).
       Inr (1 # rs, (\<lambda>idx. fwd (tl idx)), (\<lambda>idx. map_option ((#) 0) (inv idx))))"
| "view (Colon # its) [] = Inl (IndexError ''too many indices for array'')"
| "view (Colon # its) (n # sh) =
     bindE (view its sh) (\<lambda>(rs, fwd, inv).
       Inr (n # rs, (\<lambda>idx. hd idx # fwd (tl idx)),
            (\<lambda>idx. map_option ((#) (hd idx)) (inv (tl idx)))))"
| "view (Ix i # its) [] = Inl (IndexError ''too many indices for array'')"
| "view (Ix i # its) (n # sh) =
     (let j = (if i < 0 then i + int n else i)
      in if 0 \<le> j \<and> j < int n
         then bindE (view its sh) (\<lambda>(rs, fwd, inv).
                Inr (rs, (\<lambda>idx. nat j # fwd idx),
                     (\<lambda>idx. if idx \<noteq> [] \<and> hd idx = nat j then inv (tl idx) else None)))
         else Inl (IndexError ''index is out of bounds''))"

definition getitem :: "'a ndarray \<Rightarrow> ix list \<Rightarrow> error + 'a ndarray" where
  "getitem a items =
     bindE (view items (shape a)) (\<lambda>(rs, fwd, inv).
       Inr \<lparr>shape = rs, item = (\<lambda>idx. item a (fwd idx))\<rparr>)"

definition setitem :: "'a ndarray \<Rightarrow> ix list \<Rightarrow> 'a ndarray \<Rightarrow> error + 'a ndarray" where
  "setitem a items v =
     bindE (view items (shape a)) (\<lambda>(rs, fwd, inv).
       bindE (broadcast_to v rs) (\<lambda>w.
         Inr \<lparr>shape = shape a,
              item = (\<lambda>idx. case inv idx of Some j \<Rightarrow> item w j | None \<Rightarrow> item a idx)\<rparr>))"

text \<open>A \<^verbatim>\<open>for\<close> loop over a list of values that updates one variable and stops at the
  first exception.\<close>

fun for_loop :: "'i list \<Rightarrow> 's \<Rightarrow> ('i \<Rightarrow> 's \<Rightarrow> error + 's) \<Rightarrow> error + 's" where
  "for_loop [] s body = Inr s"
| "for_loop (i # is) s body = bindE (body i s) (\<lambda>s'. for_loop is s' body)"

subsection \<open>Further array operations\<close>

text \<open>\<^verbatim>\<open>a.mean(axis)\<close>.  Over an axis of length 0 numpy returns NaN; the model has no NaN
  and its value there is that of HOL's division by zero.\<close>

definition np_mean :: "'a::{zero, one, plus, inverse} ndarray \<Rightarrow> int \<Rightarrow> error + 'a ndarray" where
  "np_mean a axis =
     bindE (normalize_axis axis (length (shape a))) (\<lambda>ax.
     bindE (np_sum a axis) (\<lambda>s.
       Inr (map_array (\<lambda>x. x / count_of (shape a ! ax)) s)))"

text \<open>\<^verbatim>\<open>a.T\<close> reverses the axes; \<^verbatim>\<open>a.swapaxes(i, j)\<close> exchanges two of them.\<close>

definition transpose_array :: "'a ndarray \<Rightarrow> 'a ndarray" where
  "transpose_array a = \<lparr>shape = rev (shape a), item = (\<lambda>idx. item a (rev idx))\<rparr>"

definition swap :: "nat \<Rightarrow> nat \<Rightarrow> 'b list \<Rightarrow> 'b list" where
  "swap i j xs = xs[i := xs ! j, j := xs ! i]"

definition swapaxes :: "'a ndarray \<Rightarrow> int \<Rightarrow> int \<Rightarrow> error + 'a ndarray" where
  "swapaxes a axis1 axis2 =
     bindE (normalize_axis axis1 (length (shape a))) (\<lambda>i.
     bindE (normalize_axis axis2 (length (shape a))) (\<lambda>j.
       Inr \<lparr>shape = swap i j (shape a), item = (\<lambda>idx. item a (swap i j idx))\<rparr>))"

text \<open>\<^verbatim>\<open>np.atleast_2d\<close>: a scalar becomes a 1 x 1 array, a vector of length n a 1 x n
  array, anything else is returned as it is.\<close>

definition atleast_2d :: "'a ndarray \<Rightarrow> 'a ndarray" where
  "atleast_2d a =
     (case shape a of
        [] \<Rightarrow> \<lparr>shape = [1, 1], item = (\<lambda>idx. item a [])\<rparr>
      | [n] \<Rightarrow> \<lparr>shape = [1, n], item = (\<lambda>idx. item a (tl idx))\<rparr>
      | _ \<Rightarrow> a)"

text \<open>\<^verbatim>\<open>take\<close> and \<^verbatim>\<open>compress\<close> along axis 0 read an array without axes as a vector of
  length 1.\<close>

definition promote_0d :: "'a ndarray \<Rightarrow> 'a ndarray" where
  "promote_0d a = (if shape a = [] then \<lparr>shape = [1], item = (\<lambda>idx. item a [])\<rparr> else a)"

text \<open>\<^verbatim>\<open>a.take(indices, axis=0)\<close>: the result has the shape of the index array followed by
  the remaining axes of \<open>a\<close>; an index may be negative, and one outside the axis raises
  \<open>IndexError\<close>.\<close>

definition take0 :: "'a ndarray \<Rightarrow> int ndarray \<Rightarrow> error + 'a ndarray" where
  "take0 a0 indices =
     (let a = promote_0d a0; n = int (hd (shape a)); r = length (shape indices)
      in if array_all (\<lambda>j. - n \<le> j \<and> j < n) indices
         then Inr \<lparr>shape = shape indices @ tl (shape a),
                   item = (\<lambda>idx. let j = item indices (take r idx)
                                  in item a (nat (if j < 0 then j + n else j) # drop r idx))\<rparr>
         else Inl (IndexError ''index is out of bounds''))"

text \<open>\<^verbatim>\<open>a.compress(condition, axis=0)\<close> keeps the slices of \<open>a\<close> at the positions where the
  one-dimensional condition is true.\<close>

definition compress0 :: "'a ndarray \<Rightarrow> bool ndarray \<Rightarrow> error + 'a ndarray" where
  "compress0 a0 condition =
     (case shape condition of
        [m] \<Rightarrow>
          (let a = promote_0d a0; pos = filter (\<lambda>i. item condition [i]) [0..<m]
           in if list_all (\<lambda>i. i < hd (shape a)) pos
              then Inr \<lparr>shape = length pos # tl (shape a),
                        item = (\<lambda>idx. item a (pos ! hd idx # tl idx))\<rparr>
              else Inl (IndexError ''index is out of bounds''))
      | _ \<Rightarrow> Inl (ValueError ''condition must be a 1-d array''))"

text \<open>Indexing with a boolean mask of the array's own shape: \<^verbatim>\<open>a[mask]\<close> is the vector
  of the entries at the true positions, in row-major order, and \<^verbatim>\<open>a[mask] = v\<close> writes
  a scalar or a vector to these positions.\<close>

definition true_positions :: "bool ndarray \<Rightarrow> nat list list" where
  "true_positions msk = filter (item msk) (indices_of (shape msk))"

definition mask_get :: "'a ndarray \<Rightarrow> bool ndarray \<Rightarrow> error + 'a ndarray" where
  "mask_get a msk =
     (if shape msk \<noteq> shape a then Inl (IndexError ''boolean index did not match indexed array'')
      else Inr \<lparr>shape = [length (true_positions msk)],
                item = (\<lambda>idx. item a (true_positions msk ! hd idx))\<rparr>)"

definition mask_set :: "'a ndarray \<Rightarrow> bool ndarray \<Rightarrow> 'a ndarray \<Rightarrow> error + 'a ndarray" where
  "mask_set a msk v =
     (if shape msk \<noteq> shape a then Inl (IndexError ''boolean index did not match indexed array'')
      else if 1 < length (shape v)
      then Inl (TypeError ''boolean array indexing assignment requires a 0 or 1-dimensional input'')
      else bindE (broadcast_to v [length (true_positions msk)]) (\<lambda>w.
        Inr \<lparr>shape = shape a,
             item = (\<lambda>idx. if item msk idx
                            then item w [length (takeWhile (\<lambda>j. j \<noteq> idx) (true_positions msk))]
                            else item a idx)\<rparr>))"

section \<open>The P1 element (pysofe/elements/simple/lagrange.py)\<close>

record P1 =
  dimension :: int
  order :: nat
  n_basis :: "nat list"
  n_verts :: "nat list"
  dof_tuple :: "nat list"

text \<open>\<^verbatim>\<open>P1.__init__\<close>.  \<^verbatim>\<open>Element.__init__\<close> (pysofe/elements/base.py) is not part of the
  sources at hand; it is taken to store its four arguments under their names.\<close>

definition P1_init :: "int \<Rightarrow> P1" where
  "P1_init d =
     \<lparr>dimension = d, order = 1,
      n_basis = py_slice_to [1, 2, 3, 4] (d + 1),
      n_verts = py_slice_to [1, 2, 3, 4] (d + 1),
      dof_tuple = py_slice_to [1, 0, 0, 0] (d + 1)\<rparr>"

text \<open>\<^verbatim>\<open>nD, nP = points.shape\<close> raises \<open>ValueError\<close> unless the array has two axes.\<close>

definition unpack2 :: "nat list \<Rightarrow> error + (nat \<times> nat)" where
  "unpack2 sh = (case sh of [nD, nP] \<Rightarrow> Inr (nD, nP)
                 | _ \<Rightarrow> Inl (ValueError ''wrong number of values to unpack''))"

definition eval_d0basis ::
    "P1 \<Rightarrow> 'a::{zero, one, plus, minus} ndarray \<Rightarrow> error + 'a ndarray" where
  "eval_d0basis self points =
     bindE (unpack2 (shape points)) (\<lambda>(nD, nP).
     bindE (py_index (n_basis self) (int nD)) (\<lambda>nB.
     bindE (np_sum points 0) (\<lambda>s.
     bindE (binop (-) (scalar 1) s) (\<lambda>row0.
     bindE (setitem (zeros [nB, nP]) [Ix 0] row0) (\<lambda>basis.
       for_loop [0..<nD] basis (\<lambda>i basis.
         bindE (getitem points [Ix (int i)]) (\<lambda>row.
           setitem basis [Ix (int i + 1)] row)))))))"

definition eval_d1basis ::
    "P1 \<Rightarrow> 'a::{zero, one, uminus} ndarray \<Rightarrow> error + 'a ndarray" where
  "eval_d1basis self points =
     bindE (unpack2 (shape points)) (\<lambda>(nD, nP).
     bindE (py_index (n_basis self) (int nD)) (\<lambda>nB.
     bindE (setitem (zeros [nB, nP, nD]) [Ix 0] (scalar (- 1))) (\<lambda>basis.
       for_loop [0..<nD] basis (\<lambda>i basis.
         setitem basis [Ix (int i + 1), Colon, Ix (int i)] (scalar 1)))))"

definition eval_d2basis :: "P1 \<Rightarrow> 'a::zero ndarray \<Rightarrow> error + 'a ndarray" where
  "eval_d2basis self points =
     bindE (unpack2 (shape points)) (\<lambda>(nD, nP).
     bindE (py_index (n_basis self) (int nD)) (\<lambda>nB.
       Inr (zeros [nB, nP, nD, nD])))"

text \<open>Modelled from the spec: \<^verbatim>\<open>Element.eval_basis(points, deriv)\<close>, the dispatch on
  \<open>deriv\<close> in {0, 1, 2} to the value, first-derivative and second-derivative evaluators.
  The method is defined in pysofe/elements/base.py, which is not part of the sources at
  hand.  The specification leaves other orders open; the model reports them as an error.\<close>

definition P1_eval_basis ::
    "P1 \<Rightarrow> 'a::{zero, one, plus, minus, uminus} ndarray \<Rightarrow> int \<Rightarrow> error + 'a ndarray" where
  "P1_eval_basis self points deriv =
     (if deriv = 0 then eval_d0basis self points
      else if deriv = 1 then eval_d1basis self points
      else if deriv = 2 then eval_d2basis self points
      else Inl (ValueError ''unsupported derivation order''))"

section \<open>The mesh (pysofe_light/meshes/mesh.py)\<close>

text \<open>
  The classes \<^verbatim>\<open>MeshGeometry\<close>, \<^verbatim>\<open>MeshTopology\<close> and \<^verbatim>\<open>ReferenceMap\<close> are not part of
  the sources at hand.  They appear as the interfaces the mesh and the finite element space
  use: an attribute is a field, a method is a field holding a function that may raise.
\<close>

record 'a MeshGeometry =
  nodes :: "'a ndarray"

record MeshTopology =
  n_entities :: "nat list"
  get_entities :: "int \<Rightarrow> error + int ndarray"
  get_boundary :: "int \<Rightarrow> error + bool ndarray"

record 'a ReferenceMap =
  jacobian_inverse :: "'a ndarray \<Rightarrow> error + 'a ndarray"
  jacobian_determinant :: "'a ndarray \<Rightarrow> error + 'a ndarray"

record 'a Mesh =
  dimension :: nat
  geometry :: "'a MeshGeometry"
  topology :: MeshTopology
  ref_map :: "'a ReferenceMap"

text \<open>The three constructors called by \<^verbatim>\<open>Mesh.__init__\<close>; \<^verbatim>\<open>ReferenceMap(self)\<close> receives
  the mesh under construction, that is its dimension, geometry and topology.\<close>

record 'a constructors =
  new_MeshGeometry :: "'a ndarray \<Rightarrow> error + 'a MeshGeometry"
  new_MeshTopology :: "int ndarray \<Rightarrow> nat \<Rightarrow> error + MeshTopology"
  new_ReferenceMap :: "nat \<Rightarrow> 'a MeshGeometry \<Rightarrow> MeshTopology \<Rightarrow> error + 'a ReferenceMap"

text \<open>\<^verbatim>\<open>Mesh.__init__\<close>.  The connectivity is an integer array already, so that
  \<^verbatim>\<open>np.asarray(connectivity, dtype=int)\<close> returns it unchanged.  The \<^verbatim>\<open>assert\<close> statement
  is executed (the interpreter does not run with \<^verbatim>\<open>-O\<close>).\<close>

definition Mesh_init ::
    "'a constructors \<Rightarrow> 'a ndarray \<Rightarrow> int ndarray \<Rightarrow> error + 'a Mesh" where
  "Mesh_init env nodes0 connectivity =
     (let nodes = atleast_2d nodes0
      in bindE (py_index (shape nodes) 1) (\<lambda>width.
           if \<not> (1 \<le> width \<and> width \<le> 3) then Inl AssertionError
           else
             bindE (new_MeshGeometry env nodes) (\<lambda>g.
             bindE (new_MeshTopology env connectivity width) (\<lambda>t.
             bindE (new_ReferenceMap env width g t) (\<lambda>rm.
               Inr \<lparr>dimension = width, geometry = g, topology = t, ref_map = rm\<rparr>)))))"

text \<open>The properties \<^verbatim>\<open>Mesh.nodes\<close> and \<^verbatim>\<open>Mesh.facets\<close>.\<close>

definition Mesh_nodes :: "'a Mesh \<Rightarrow> 'a ndarray" where
  "Mesh_nodes self = nodes (geometry self)"

definition facets :: "'a Mesh \<Rightarrow> error + int ndarray" where
  "facets self = get_entities (topology self) (int (Mesh.dimension self) - 1)"

text \<open>Lines 123 to 125 of \<^verbatim>\<open>Mesh.boundary\<close>: the centroids of the facets selected by the
  mask.\<close>

definition boundary_centroids ::
    "'a::{zero, one, plus, inverse} Mesh \<Rightarrow> bool ndarray \<Rightarrow> error + 'a ndarray" where
  "boundary_centroids self boundary_mask =
     bindE (facets self) (\<lambda>fs.
     bindE (compress0 fs boundary_mask) (\<lambda>facet_vertices.
     bindE (take0 (Mesh_nodes self) (map_array (\<lambda>v. v - 1) facet_vertices))
       (\<lambda>facet_vertex_coordinates. np_mean facet_vertex_coordinates 1)))"

text \<open>Lines 128 to 138: the predicate is first called on all centroids at once; when that
  call raises, whatever the exception, it is called on one centroid after the other.  The
  array from \<^verbatim>\<open>np.empty\<close> has arbitrary entries, all of which the loop overwrites; it
  starts here with \<open>False\<close> everywhere.\<close>

definition boundary_part_mask ::
    "('a ndarray \<Rightarrow> error + bool ndarray) \<Rightarrow> 'a ndarray \<Rightarrow> error + bool ndarray" where
  "boundary_part_mask fnc centroids =
     (case fnc (transpose_array centroids) of
        Inr part_mask \<Rightarrow> Inr part_mask
      | Inl e \<Rightarrow>
          bindE (np_size_axis centroids 0) (\<lambda>ncentroids.
            for_loop [0..<ncentroids] (full [ncentroids] False) (\<lambda>i part_mask.
              bindE (getitem centroids [Ix (int i), Colon]) (\<lambda>c.
              bindE (fnc c) (\<lambda>v. setitem part_mask [Ix (int i)] v)))))"

text \<open>\<^verbatim>\<open>Mesh.boundary\<close>.  The argument \<open>fnc\<close> is \<open>None\<close> or a function, so that
  \<^verbatim>\<open>assert callable(fnc)\<close> holds.  The predicate returns a boolean array (a single truth
  value is an array without axes) or raises.\<close>

definition boundary ::
    "'a::{zero, one, plus, inverse} Mesh \<Rightarrow> ('a ndarray \<Rightarrow> error + bool ndarray) option \<Rightarrow>
       error + bool ndarray" where
  "boundary self fnc_opt =
     bindE (get_boundary (topology self) (int (Mesh.dimension self) - 1)) (\<lambda>boundary_mask.
       case fnc_opt of
         None \<Rightarrow> Inr boundary_mask
       | Some fnc \<Rightarrow>
           bindE (boundary_centroids self boundary_mask) (\<lambda>centroids.
           bindE (boundary_part_mask fnc centroids) (\<lambda>part_mask.
           bindE (mask_get boundary_mask boundary_mask) (\<lambda>selected.
           bindE (binop (\<and>) selected part_mask) (\<lambda>v.
             mask_set boundary_mask boundary_mask v)))))"

section \<open>The finite element space (pysofe/spaces/space.py)\<close>

text \<open>
  The reference element is used through \<^verbatim>\<open>eval_basis\<close>, the quadrature rule through its
  per-dimension tables of points and weights, and the base class \<^verbatim>\<open>DOFManager\<close> (not part
  of the sources at hand) through \<^verbatim>\<open>get_dof_map\<close>.
\<close>

record 'a Element =
  eval_basis :: "'a ndarray \<Rightarrow> int \<Rightarrow> error + 'a ndarray"

record 'a GaussQuadSimp =
  points :: "'a ndarray list"
  weights :: "'a ndarray list"

record 'a FESpace =
  mesh :: "'a Mesh"
  element :: "'a Element"
  quad_rule :: "'a GaussQuadSimp"
  get_dof_map :: "nat \<Rightarrow> error + int ndarray"

definition P1_element :: "P1 \<Rightarrow> 'a::{zero, one, plus, minus, uminus} Element" where
  "P1_element p = \<lparr>eval_basis = P1_eval_basis p\<rparr>"

definition get_quadrature_data ::
    "'a::{one, abs} FESpace \<Rightarrow> int \<Rightarrow> error + ('a ndarray \<times> 'a ndarray \<times> 'a ndarray)" where
  "get_quadrature_data self d =
     bindE (py_index (points (quad_rule self)) d) (\<lambda>qpoints.
     bindE (py_index (weights (quad_rule self)) d) (\<lambda>qweights.
     bindE (if 0 < np_size qpoints
            then bindE (jacobian_determinant (ref_map (mesh self)) qpoints) (\<lambda>jac_dets.
                   Inr (np_abs jac_dets))
            else bindE (py_index (n_entities (topology (mesh self))) d) (\<lambda>nE.
                   Inr (ones [nE, 1])))
       (\<lambda>jac_dets. Inr (qpoints, qweights, jac_dets))))"

definition invalid_order_msg :: "int \<Rightarrow> string" where
  "invalid_order_msg deriv =
     ''Invalid derivation order for global derivatives! ('' @ str_int deriv @ '')''"

definition eval_global_derivatives ::
    "'a::{zero, plus, times} FESpace \<Rightarrow> 'a ndarray \<Rightarrow> int \<Rightarrow> error + 'a ndarray" where
  "eval_global_derivatives self pts deriv =
     (if \<not> (deriv = 1 \<or> deriv = 2) then Inl (ValueError (invalid_order_msg deriv))
      else
        bindE (jacobian_inverse (ref_map (mesh self)) pts) (\<lambda>inv_jac.
        bindE (eval_basis (element self) pts deriv) (\<lambda>local_derivatives.
          if deriv = 1 then
            bindE (getitem inv_jac [Colon, NewAxis, Colon, Colon, Colon]) (\<lambda>a.
            bindE (getitem local_derivatives [NewAxis, Colon, Colon, Colon, NewAxis]) (\<lambda>b.
            bindE (binop (*) a b) (\<lambda>prod. np_sum prod (- 2))))
          else if deriv = 2 then
            bindE (swapaxes inv_jac (- 2) (- 1)) (\<lambda>inv_jac_T.
            bindE (getitem inv_jac_T [Colon, NewAxis, Colon, Colon, Colon, NewAxis]) (\<lambda>a.
            bindE (getitem local_derivatives [NewAxis, Colon, Colon, NewAxis, Colon, Colon]) (\<lambda>b.
            bindE (binop (*) a b) (\<lambda>prod.
            bindE (np_sum prod (- 2)) (\<lambda>derivatives.
            bindE (getitem derivatives [Colon, Colon, Colon, Colon, Colon, NewAxis]) (\<lambda>c.
            bindE (getitem inv_jac [Colon, NewAxis, Colon, NewAxis, Colon, Colon]) (\<lambda>d.
            bindE (binop (*) c d) (\<lambda>prod2. np_sum prod2 (- 2)))))))))
          else Inl (NameError ''local variable derivatives referenced before assignment''))))"

text \<open>
  \<^verbatim>\<open>FESpace.eval_dofs\<close>.  In the last branch the argument of \<^verbatim>\<open>raise\<close> is
  \<^verbatim>\<open>'Invalid derivation order ({})'.format(d)\<close>; no local, global or builtin name \<^verbatim>\<open>d\<close>
  exists in the function or its module, so evaluating the argument raises \<open>NameError\<close> and
  the \<open>NotImplementedError\<close> is never constructed.
\<close>

definition eval_dofs ::
    "'a::{zero, plus, times} FESpace \<Rightarrow> 'a ndarray \<Rightarrow> 'a ndarray \<Rightarrow> int \<Rightarrow> bool \<Rightarrow>
       error + 'a ndarray" where
  "eval_dofs self dofs pts deriv local =
     (if \<not> local then Inl (NotImplementedError [])
      else
        bindE (np_size_axis pts 0) (\<lambda>dim.
          if int dim < int (Mesh.dimension (mesh self)) \<and> 0 < deriv
          then Inl (NotImplementedError ''Higher order derivatives for traces not supported!'')
          else
            bindE (get_dof_map self dim) (\<lambda>dof_map.
            bindE (take0 dofs (map_array (\<lambda>i. i - 1) dof_map)) (\<lambda>vals.
              if deriv = 0 then
                bindE (eval_basis (element self) pts deriv) (\<lambda>basis.
                bindE (getitem vals [Colon, Colon, NewAxis]) (\<lambda>a.
                bindE (getitem basis [Colon, NewAxis, Colon]) (\<lambda>b.
                bindE (binop (*) a b) (\<lambda>prod. np_sum prod 0))))
              else if deriv = 1 then
                bindE (eval_global_derivatives self pts 1) (\<lambda>dbasis_global.
                bindE (getitem (transpose_array vals) [Colon, Colon, NewAxis, NewAxis]) (\<lambda>a.
                bindE (binop (*) a dbasis_global) (\<lambda>prod. np_sum prod 1)))
              else Inl (NameError ''name d is not defined'')))))"

section \<open>Exceptions raised inside numpy\<close>

text \<open>The exceptions that the array operations and the indexing of a tuple raise by
  themselves, as opposed to those that the code of the finite element space raises with a
  \<^verbatim>\<open>raise\<close> statement of its own.\<close>

definition numpy_error :: "error \<Rightarrow> bool" where
  "numpy_error e =
     (case e of
        IndexError m \<Rightarrow> True
      | AxisError m \<Rightarrow> True
      | ValueError m \<Rightarrow> m = ''operands could not be broadcast together''
      | _ \<Rightarrow> False)"

section \<open>Example data\<close>

text \<open>Arrays written as a list of entries and as a list of rows of a given width.\<close>

definition vector :: "'a list \<Rightarrow> 'a ndarray" where
  "vector xs = \<lparr>shape = [length xs], item = (\<lambda>idx. xs ! hd idx)\<rparr>"

definition matrix :: "nat \<Rightarrow> 'a list list \<Rightarrow> 'a ndarray" where
  "matrix ncols rows = \<lparr>shape = [length rows, ncols], item = (\<lambda>idx. rows ! hd idx ! hd (tl idx))\<rparr>"

text \<open>
  The interval from 0 to 3 with the nodes 0, 1 and 3 and the two cells (1, 2) and (3, 2);
  the second cell is traversed from right to left, so that the derivative of its reference
  map is \<open>- 2\<close>.  The space on it uses the P1 element of dimension 1 and a quadrature rule
  with the two points 1/4 and 3/4.
\<close>

definition interval_mesh :: "float64 Mesh" where
  "interval_mesh =
     \<lparr>dimension = 1,
      geometry = \<lparr>nodes = matrix 1 [[F64 0], [F64 1], [F64 3]]\<rparr>,
      topology = \<lparr>n_entities = [3, 2],
                  get_entities = (\<lambda>d. if d = 0 then Inr (matrix 1 [[1], [2], [3]])
                                       else if d = 1 then Inr (matrix 2 [[1, 2], [3, 2]])
                                       else Inl (IndexError [])),
                  get_boundary = (\<lambda>d. if d = 0 then Inr (vector [True, False, True])
                                       else Inl (IndexError []))\<rparr>,
      ref_map = \<lparr>jacobian_inverse = (\<lambda>p. Inr \<lparr>shape = [2, hd (tl (shape p)), 1, 1],
                                                  item = (\<lambda>idx. [F64 1, F64 (- (1 / 2))] ! hd idx)\<rparr>),
                 jacobian_determinant = (\<lambda>p. Inr \<lparr>shape = [2, hd (tl (shape p))],
                                                      item = (\<lambda>idx. [F64 1, F64 (- 2)] ! hd idx)\<rparr>)\<rparr>\<rparr>"

definition interval_space :: "float64 FESpace" where
  "interval_space =
     \<lparr>mesh = interval_mesh,
      element = P1_element (P1_init 1),
      quad_rule = \<lparr>points = [matrix 1 [], matrix 2 [[F64 (1 / 4), F64 (3 / 4)]]],
                   weights = [vector [F64 1], vector [F64 (1 / 2), F64 (1 / 2)]]\<rparr>,
      get_dof_map = (\<lambda>d. if d = 0 then Inr (matrix 3 [[1, 2, 3]])
                          else if d = 1 then Inr (matrix 2 [[1, 3], [2, 2]])
                          else Inl (IndexError []))\<rparr>"

text \<open>The predicate of the one-dimensional test case (test/test_pde/test_poisson.py):
  \<^verbatim>\<open>np.logical_or(x[0] == 0., x[0] == 1.)\<close>.\<close>

definition dir_domain :: "'a::{zero, one} ndarray \<Rightarrow> error + bool ndarray" where
  "dir_domain x =
     bindE (getitem x [Ix 0]) (\<lambda>x0.
       binop (\<or>) (map_array (\<lambda>v. v = 0) x0) (map_array (\<lambda>v. v = 1) x0))"

text \<open>Constructors that store what they are given.\<close>

definition plain_constructors :: "float64 constructors" where
  "plain_constructors =
     \<lparr>new_MeshGeometry = (\<lambda>nds. Inr \<lparr>nodes = nds\<rparr>),
      new_MeshTopology = (\<lambda>cells d. Inr \<lparr>n_entities = [], get_entities = (\<lambda>k. Inr cells),
                                           get_boundary = (\<lambda>k. Inl (IndexError []))\<rparr>),
      new_ReferenceMap = (\<lambda>d g t. Inr (ref_map interval_mesh))\<rparr>"

text \<open>The doubles nearest to 0.1 and 0.2, the values of the Python literals \<^verbatim>\<open>0.1\<close>
  and \<^verbatim>\<open>0.2\<close>, and the point of the reference triangle with these coordinates.\<close>

definition double_0_1 :: float64 where
  "double_0_1 = F64 (3602879701896397 / 36028797018963968)"

definition double_0_2 :: float64 where
  "double_0_2 = F64 (3602879701896397 / 18014398509481984)"

definition point_02_01 :: "float64 ndarray" where
  "point_02_01 = matrix 1 [[double_0_2], [double_0_1]]"

section \<open>Loops and indexing: auxiliary facts\<close>

lemma bindE_Inr [simp]: "bindE (Inr x) f = f x"
  by (simp add: bindE_def)

lemma bindE_Inl_simp [simp]: "bindE (Inl e) f = Inl e"
  by (simp add: bindE_def)

lemma bindE_Inl:
  assumes "bindE m f = Inl e"
  obtains "m = Inl e" | x where "m = Inr x" and "f x = Inl e"
  using assms by (cases m) auto

lemma bindE_Inr_result:
  assumes "bindE m f = Inr y"
  obtains x where "m = Inr x" and "f x = Inr y"
  using assms by (cases m) auto

lemma for_loop_append:
  "for_loop (xs @ ys) s body = bindE (for_loop xs s body) (\<lambda>s'. for_loop ys s' body)"
  by (induction xs arbitrary: s) (auto simp: bindE_def split: sum.splits)

lemma for_loop_snoc:
  assumes "for_loop [0..<k] s body = Inr s'"
  shows "for_loop [0..<Suc k] s body = body k s'"
  using assms by (simp add: for_loop_append bindE_def split: sum.splits)

lemma for_loop_cong:
  assumes "\<And>i s. i \<in> set xs \<Longrightarrow> body i s = body' i s"
  shows "for_loop xs s body = for_loop xs s body'"
  using assms by (induction xs arbitrary: s) (auto simp: bindE_def split: sum.splits)

lemma upt_2: "[0..<2] = [0, 1]"
  by (simp add: upt_rec)

lemma upt_3: "[0..<3] = [0, 1, 2]"
  by (simp add: upt_rec)

lemma upt_Suc_shift: "[0..<Suc n] = 0 # map Suc [0..<n]"
  by (simp add: upt_conv_Cons map_Suc_upt del: upt_Suc)

lemma setitem_row:
  assumes "shape a = [n, m]" and "shape v = [m]" and "i < n"
  shows "\<exists>r. setitem a [Ix (int i)] v = Inr r \<and> shape r = [n, m] \<and>
           (\<forall>b p. p < m \<longrightarrow> item r [b, p] = (if b = i then item v [p] else item a [b, p]))"
  using assms
  by (auto simp: setitem_def broadcast_to_def broadcast_shapes_def bidx_def Let_def)

lemma getitem_row:
  assumes "shape a = [n, m]" and "i < n"
  shows "\<exists>r. getitem a [Ix (int i)] = Inr r \<and> shape r = [m] \<and> (\<forall>p. item r [p] = item a [i, p])"
  using assms by (auto simp: getitem_def Let_def)

section \<open>Arithmetic: auxiliary facts\<close>

text \<open>In exact arithmetic the sum from left to right is the sum.\<close>

lemma foldl_plus_sum_list:
  fixes a :: "'a::monoid_add"
  shows "foldl (+) a xs = a + sum_list xs"
  by (induction xs arbitrary: a) (simp_all add: add.assoc)

lemma seq_sum_exact:
  fixes xs :: "'a::monoid_add list"
  shows "seq_sum xs = sum_list xs"
  by (simp add: seq_sum_def foldl_plus_sum_list)

text \<open>Rounding and the operations of \<open>float64\<close> on given numbers are computed by
  rewriting with these equations.\<close>

lemmas round64_eval =
  round64_def exponent_def round_half_even_def pow2_def bit_length.simps Let_def

lemmas float64_eval =
  zero_float64_def one_float64_def plus_float64_def minus_float64_def uminus_float64_def
  times_float64_def divide_float64_def abs_float64_def less_eq_float64_def less_float64_def

subsection \<open>The rounding of \<open>float64\<close>\<close>

lemma bit_length_bounds:
  "0 < n \<Longrightarrow> (2::nat) ^ (bit_length n - 1) \<le> n \<and> n < 2 ^ bit_length n"
proof (induction n rule: bit_length.induct)
  case (1 n)
  show ?case
  proof (cases "n div 2 = 0")
    case True
    with "1.prems" have "n = 1" by (simp add: div_eq_0_iff)
    then show ?thesis by (simp add: bit_length.simps)
  next
    case False
    then have pos: "0 < n div 2" by simp
    from "1.IH" [OF _ pos] "1.prems"
    have ih: "(2::nat) ^ (bit_length (n div 2) - 1) \<le> n div 2" "n div 2 < 2 ^ bit_length (n div 2)"
      by auto
    have bl: "bit_length n = Suc (bit_length (n div 2))"
      using "1.prems" by (simp add: bit_length.simps [of n])
    obtain b where b: "bit_length (n div 2) = Suc b"
      using pos by (simp add: bit_length.simps [of "n div 2"])
    have "2 * (n div 2) \<le> n" "n < 2 * (n div 2) + 2" by presburger+
    with ih show ?thesis unfolding bl b by simp
  qed
qed

lemma pow2_of_nat: "pow2 (int k) = 2 ^ k"
  by (simp add: pow2_def)

lemma pow2_neg_nat: "pow2 (- int k) = 1 / 2 ^ k"
  by (simp add: pow2_def)

lemma floor_bounds_nat:
  fixes y :: real
  assumes "1 \<le> y"
  shows "0 < nat \<lfloor>y\<rfloor>" "real (nat \<lfloor>y\<rfloor>) \<le> y" "y < real (nat \<lfloor>y\<rfloor>) + 1"
proof -
  have f: "1 \<le> \<lfloor>y\<rfloor>" using assms by linarith
  then show "0 < nat \<lfloor>y\<rfloor>" by simp
  from f have "real (nat \<lfloor>y\<rfloor>) = of_int \<lfloor>y\<rfloor>" by simp
  then show "real (nat \<lfloor>y\<rfloor>) \<le> y" "y < real (nat \<lfloor>y\<rfloor>) + 1" by linarith+
qed

lemma bit_length_real_bounds:
  fixes y :: real
  assumes "1 \<le> y"
  shows "2 ^ (bit_length (nat \<lfloor>y\<rfloor>) - 1) \<le> y" "y < 2 ^ bit_length (nat \<lfloor>y\<rfloor>)"
proof -
  let ?n = "nat \<lfloor>y\<rfloor>"
  note f = floor_bounds_nat [OF assms]
  from bit_length_bounds [OF f(1)]
  have n: "(2::nat) ^ (bit_length ?n - 1) \<le> ?n" "?n + 1 \<le> 2 ^ bit_length ?n"
    by (simp_all add: Suc_leI)
  from n(1) have "real (2 ^ (bit_length ?n - 1)) \<le> real ?n" by (rule of_nat_mono)
  then have "2 ^ (bit_length ?n - 1) \<le> real ?n" by simp
  then show "2 ^ (bit_length ?n - 1) \<le> y" using f(2) by (rule order_trans)
  from n(2) have "real (?n + 1) \<le> real (2 ^ bit_length ?n)" by (rule of_nat_mono)
  then have "real ?n + 1 \<le> 2 ^ bit_length ?n" by simp
  with f(3) show "y < 2 ^ bit_length ?n" by (rule less_le_trans)
qed

text \<open>The exponent brackets the number.\<close>

lemma exponent_bounds:
  assumes "x \<noteq> 0"
  shows "pow2 (exponent x) \<le> \<bar>x\<bar>" and "\<bar>x\<bar> < pow2 (exponent x + 1)"
proof -
  have "pow2 (exponent x) \<le> \<bar>x\<bar> \<and> \<bar>x\<bar> < pow2 (exponent x + 1)"
  proof (cases "1 \<le> \<bar>x\<bar>")
    case True
    let ?b = "bit_length (nat \<lfloor>\<bar>x\<bar>\<rfloor>)"
    note bb = bit_length_real_bounds [OF True]
    have "0 < ?b" using floor_bounds_nat(1) [OF True] by (simp add: bit_length.simps [of "nat \<lfloor>\<bar>x\<bar>\<rfloor>"])
    then obtain c where c: "?b = Suc c" by (cases ?b) auto
    have e: "exponent x = int c" using True by (simp add: exponent_def c)
    have e1: "exponent x + 1 = int (Suc c)" using e by simp
    show ?thesis unfolding e1 unfolding e pow2_of_nat using bb by (simp add: c)
  next
    case False
    let ?y = "1 / \<bar>x\<bar>"
    have xpos: "0 < \<bar>x\<bar>" "\<bar>x\<bar> < 1" using assms False by auto
    then have y1: "1 \<le> ?y" by (simp add: field_simps)
    let ?b = "bit_length (nat \<lfloor>?y\<rfloor>)"
    note bb = bit_length_real_bounds [OF y1]
    have "0 < ?b" using floor_bounds_nat(1) [OF y1] by (simp add: bit_length.simps [of "nat \<lfloor>?y\<rfloor>"])
    then obtain k where k: "?b = Suc k" by (cases ?b) auto
    from bb have lo: "2 ^ k \<le> ?y" and hi: "?y < 2 ^ Suc k" by (simp_all add: k)
    have up: "\<bar>x\<bar> \<le> 1 / 2 ^ k"
      using lo xpos by (simp add: field_simps)
    have dn: "1 / 2 ^ Suc k < \<bar>x\<bar>"
      using hi xpos by (simp add: field_simps)
    have kk: "int ?b - 1 = int k" by (simp add: k)
    have ex: "exponent x = (if \<bar>x\<bar> = pow2 (- int k) then - int k else - int k - 1)"
      using False by (simp only: exponent_def kk Let_def if_False)
    show ?thesis
    proof (cases "\<bar>x\<bar> = pow2 (- int k)")
      case True
      then have e: "exponent x = - int k" by (simp add: ex)
      have "\<bar>x\<bar> < pow2 (- int k + 1)"
      proof (cases k)
        case 0
        then show ?thesis using xpos by (simp add: pow2_def)
      next
        case (Suc j)
        then have "pow2 (- int k + 1) = pow2 (- int j)" by simp
        then have a: "pow2 (- int k + 1) = 1 / 2 ^ j" by (simp only: pow2_neg_nat)
        have b: "\<bar>x\<bar> = 1 / 2 ^ Suc j" using True by (simp only: pow2_neg_nat Suc)
        have "(1::real) / 2 ^ Suc j < 1 / 2 ^ j" by (simp add: field_simps)
        then show ?thesis by (simp only: a b)
      qed
      then show ?thesis using True by (simp add: e)
    next
      case neq: False
      then have e: "exponent x = - int (Suc k)" by (simp add: ex)
      have e1: "exponent x + 1 = - int k" using e by simp
      have "\<bar>x\<bar> < 1 / 2 ^ k" using up neq by (simp add: pow2_neg_nat)
      then show ?thesis unfolding e1 unfolding e pow2_neg_nat using dn by simp
    qed
  qed
  then show "pow2 (exponent x) \<le> \<bar>x\<bar>" and "\<bar>x\<bar> < pow2 (exponent x + 1)" by simp_all
qed


text \<open>Rounding returns a multiple of the spacing at the number's exponent that is
  nearest to the number, and the even one of two nearest multiples.\<close>

lemma round_half_even_nearest:
  "\<bar>of_int (round_half_even m) - m\<bar> \<le> 1 / 2"
  "\<bar>of_int (round_half_even m) - m\<bar> = 1 / 2 \<Longrightarrow> even (round_half_even m)"
proof -
  have f: "of_int \<lfloor>m\<rfloor> \<le> m" "m < of_int \<lfloor>m\<rfloor> + 1" by linarith+
  then show "\<bar>of_int (round_half_even m) - m\<bar> \<le> 1 / 2"
    by (auto simp: round_half_even_def Let_def)
  from f show "\<bar>of_int (round_half_even m) - m\<bar> = 1 / 2 \<Longrightarrow> even (round_half_even m)"
    by (auto simp: round_half_even_def Let_def split: if_splits)
qed

lemma pow2_pos: "0 < pow2 e"
  by (simp add: pow2_def)

lemma round64_nearest:
  assumes "x \<noteq> 0" and "ulp = pow2 (max (exponent x) (- 1022) - 52)"
  shows "round64 x = of_int (round_half_even (x / ulp)) * ulp"
    and "\<bar>round64 x - x\<bar> \<le> ulp / 2"
proof -
  show r: "round64 x = of_int (round_half_even (x / ulp)) * ulp"
    using assms by (simp add: round64_def Let_def)
  have pos: "0 < ulp" using assms(2) by (simp add: pow2_pos)
  have "\<bar>of_int (round_half_even (x / ulp)) - x / ulp\<bar> * ulp \<le> 1 / 2 * ulp"
    using round_half_even_nearest(1) [of "x / ulp"] pos by (intro mult_right_mono) simp_all
  moreover have "\<bar>of_int (round_half_even (x / ulp)) - x / ulp\<bar> * ulp = \<bar>round64 x - x\<bar>"
  proof -
    have "\<bar>of_int (round_half_even (x / ulp)) - x / ulp\<bar> * ulp
        = \<bar>(of_int (round_half_even (x / ulp)) - x / ulp) * ulp\<bar>"
      using pos by (simp only: abs_mult abs_of_pos)
    also have "(of_int (round_half_even (x / ulp)) - x / ulp) * ulp
        = of_int (round_half_even (x / ulp)) * ulp - x"
      using pos by (simp add: left_diff_distrib)
    finally show ?thesis by (simp only: r)
  qed
  ultimately show "\<bar>round64 x - x\<bar> \<le> ulp / 2" by simp
qed

lemma double_0_1_nearest: "F64 (round64 (1 / 10)) = double_0_1"
  by (simp add: double_0_1_def round64_eval)

lemma double_0_2_nearest: "F64 (round64 (2 / 10)) = double_0_2"
  by (simp add: double_0_2_def round64_eval)

section \<open>The P1 basis\<close>

lemma n_basis_P1:
  assumes "int nD \<le> d" and "d \<le> 3"
  shows "py_index (n_basis (P1_init d)) (int nD) = Inr (Suc nD)"
proof -
  have "nD < 4" using assms by linarith
  then consider "nD = 0" | "nD = 1" | "nD = 2" | "nD = 3" by linarith
  then show ?thesis
    using assms
    by cases (auto simp: P1_init_def py_slice_to_def py_index_def nth_Cons' min_def)
qed

text \<open>One pass through the body of the loop of \<^verbatim>\<open>_eval_d0basis\<close>.\<close>

lemma d0_body_step:
  assumes "shape pts = [nD, nP]" and "shape basis = [nB, nP]" and "i < nD" and "Suc i < nB"
  shows "\<exists>r. bindE (getitem pts [Ix (int i)]) (\<lambda>row. setitem basis [Ix (int i + 1)] row) = Inr r
            \<and> shape r = [nB, nP] \<and>
           (\<forall>b p. p < nP \<longrightarrow>
              item r [b, p] = (if b = Suc i then item pts [i, p] else item basis [b, p]))"
proof -
  obtain row where row: "getitem pts [Ix (int i)] = Inr row" "shape row = [nP]"
      "\<forall>p. item row [p] = item pts [i, p]"
    using getitem_row [OF assms(1) assms(3)] by blast
  have eq: "int i + 1 = int (Suc i)" by simp
  obtain r where r: "setitem basis [Ix (int (Suc i))] row = Inr r" "shape r = [nB, nP]"
      "\<forall>b p. p < nP \<longrightarrow> item r [b, p] = (if b = Suc i then item row [p] else item basis [b, p])"
    using setitem_row [OF assms(2) row(2) assms(4)] by blast
  show ?thesis
    using row r by (simp add: eq)
qed

text \<open>The loop invariant: after \<open>k\<close> passes the rows 1 to \<open>k\<close> hold the coordinates 0 to
  \<open>k - 1\<close>, and every other row is as it was.\<close>

lemma d0_loop:
  assumes "shape pts = [nD, nP]" and "shape basis = [nB, nP]" and "nD < nB"
  shows "k \<le> nD \<Longrightarrow>
         \<exists>r. for_loop [0..<k] basis (\<lambda>i basis. bindE (getitem pts [Ix (int i)])
                 (\<lambda>row. setitem basis [Ix (int i + 1)] row)) = Inr r
            \<and> shape r = [nB, nP] \<and>
           (\<forall>b p. p < nP \<longrightarrow> item r [b, p] =
               (if 0 < b \<and> b \<le> k then item pts [b - 1, p] else item basis [b, p]))"
proof (induction k)
  case 0
  then show ?case using assms by simp
next
  case (Suc k)
  let ?body = "\<lambda>i basis. bindE (getitem pts [Ix (int i)]) (\<lambda>row. setitem basis [Ix (int i + 1)] row)"
  from Suc obtain r where r: "for_loop [0..<k] basis ?body = Inr r" "shape r = [nB, nP]"
      "\<forall>b p. p < nP \<longrightarrow> item r [b, p] =
               (if 0 < b \<and> b \<le> k then item pts [b - 1, p] else item basis [b, p])"
    by auto
  have "k < nD" "Suc k < nB" using Suc.prems assms(3) by auto
  from d0_body_step [OF assms(1) r(2) this]
  obtain r' where r': "?body k r = Inr r'" "shape r' = [nB, nP]"
     "\<forall>b p. p < nP \<longrightarrow> item r' [b, p] = (if b = Suc k then item pts [k, p] else item r [b, p])"
    by blast
  have "for_loop [0..<Suc k] basis ?body = Inr r'"
    using for_loop_snoc [OF r(1)] r'(1) by simp
  moreover have "\<forall>b p. p < nP \<longrightarrow> item r' [b, p] =
               (if 0 < b \<and> b \<le> Suc k then item pts [b - 1, p] else item basis [b, p])"
    using r(3) r'(3) by (auto simp: le_Suc_eq)
  ultimately show ?case using r'(2) by blast
qed

text \<open>The array before the loop: row 0 is set, the other rows are zero.\<close>

lemma d0_row0:
  fixes pts :: "'a::{zero, one, plus, minus} ndarray"
  assumes "shape pts = [nD, nP]" and "0 < nB"
  shows "\<exists>s row0 basis. np_sum pts 0 = Inr s \<and> binop (-) (scalar 1) s = Inr row0 \<and>
           setitem (zeros [nB, nP]) [Ix 0] row0 = Inr basis \<and> shape basis = [nB, nP] \<and>
           (\<forall>b p. p < nP \<longrightarrow> item basis [b, p] =
              (if b = 0 then 1 - seq_sum (map (\<lambda>i. item pts [i, p]) [0..<nD]) else 0))"
proof -
  let ?s = "\<lparr>shape = [nP],
    item = (\<lambda>idx. seq_sum (map (\<lambda>i. item pts (take 0 idx @ i # drop 0 idx)) [0..<nD]))\<rparr>"
  have s: "np_sum pts 0 = Inr ?s"
    using assms by (simp add: np_sum_def normalize_axis_def)
  obtain row0 where row0: "binop (-) (scalar 1) ?s = Inr row0" "shape row0 = [nP]"
     "\<forall>p. p < nP \<longrightarrow> item row0 [p] = 1 - seq_sum (map (\<lambda>i. item pts [i, p]) [0..<nD])"
    by (auto simp: binop_def scalar_def broadcast_shapes_def bidx_def)
  have z: "shape (zeros [nB, nP] :: 'a ndarray) = [nB, nP]" by (simp add: zeros_def full_def)
  obtain basis where b: "setitem (zeros [nB, nP]) [Ix (int 0)] row0 = Inr basis"
      "shape basis = [nB, nP]"
      "\<forall>b p. p < nP \<longrightarrow> item basis [b, p] =
          (if b = 0 then item row0 [p] else item (zeros [nB, nP] :: 'a ndarray) [b, p])"
    using setitem_row [OF z row0(2) assms(2)] by blast
  show ?thesis using s row0 b by (auto simp: zeros_def full_def)
qed

lemma eval_d0basis_entries:
  fixes pts :: "'a::{zero, one, plus, minus} ndarray"
  assumes "shape pts = [nD, nP]" and "int nD \<le> d" and "d \<le> 3"
  shows "\<exists>r. eval_d0basis (P1_init d) pts = Inr r \<and> shape r = [nD + 1, nP] \<and>
           (\<forall>p<nP. item r [0, p] = 1 - seq_sum (map (\<lambda>i. item pts [i, p]) [0..<nD]) \<and>
                   (\<forall>i<nD. item r [i + 1, p] = item pts [i, p]))"
proof -
  let ?body = "\<lambda>i basis. bindE (getitem pts [Ix (int i)]) (\<lambda>row. setitem basis [Ix (int i + 1)] row)"
  have nB: "py_index (n_basis (P1_init d)) (int nD) = Inr (Suc nD)"
    using assms by (simp add: n_basis_P1)
  obtain s row0 basis where init: "np_sum pts 0 = Inr s" "binop (-) (scalar 1) s = Inr row0"
      "setitem (zeros [Suc nD, nP]) [Ix 0] row0 = Inr basis" "shape basis = [Suc nD, nP]"
      "\<forall>b p. p < nP \<longrightarrow> item basis [b, p] =
              (if b = 0 then 1 - seq_sum (map (\<lambda>i. item pts [i, p]) [0..<nD]) else 0)"
    using d0_row0 [OF assms(1), of "Suc nD"] by auto
  obtain r where r: "for_loop [0..<nD] basis ?body = Inr r" "shape r = [Suc nD, nP]"
      "\<forall>b p. p < nP \<longrightarrow> item r [b, p] =
               (if 0 < b \<and> b \<le> nD then item pts [b - 1, p] else item basis [b, p])"
    using d0_loop [OF assms(1) init(4), of nD] by auto
  have "eval_d0basis (P1_init d) pts = Inr r"
    using assms(1) nB init(1,2,3) r(1) by (simp add: eval_d0basis_def unpack2_def)
  then show ?thesis using r(2,3) init(5) by auto
qed

text \<open>
  C5.  For the P1 element of dimension \<open>d\<close> (at most 3, the largest dimension the element
  has a basis count for) and an \<open>nD x nP\<close> array of points with \<open>0 < nD \<le> d\<close>, the value
  evaluator returns an array with \<open>nD + 1\<close> rows and \<open>nP\<close> columns; in every column, row 0
  is 1 minus the sum of the point's coordinates and row \<open>i + 1\<close> is the point's \<open>i\<close>-th
  coordinate.  This holds in every arithmetic, with the sum and the difference computed
  in it.
\<close>

theorem P1_eval_d0basis_values:
  fixes pts :: "'a::{zero, one, plus, minus} ndarray"
  assumes "shape pts = [nD, nP]" and "0 < nD" and "int nD \<le> d" and "d \<le> 3"
  shows "\<exists>r. eval_d0basis (P1_init d) pts = Inr r \<and> shape r = [nD + 1, nP] \<and>
           (\<forall>p<nP. item r [0, p] = 1 - seq_sum (map (\<lambda>i. item pts [i, p]) [0..<nD]) \<and>
                   (\<forall>i<nD. item r [i + 1, p] = item pts [i, p]))"
  using assms(1,3,4) by (rule eval_d0basis_entries)

lemma quarter_plus_half:
  "1 - seq_sum [F64 (1 / 4), F64 (1 / 2)] = F64 (1 / 4)"
  by (simp add: seq_sum_def float64_eval round64_eval)

theorem P1_eval_d0basis_values_witness:
  "\<exists>r. eval_d0basis (P1_init 2) (matrix 1 [[F64 (1 / 4)], [F64 (1 / 2)]]) = Inr r \<and>
        shape r = [3, 1] \<and> item r [0, 0] = F64 (1 / 4) \<and> item r [1, 0] = F64 (1 / 4) \<and>
        item r [2, 0] = F64 (1 / 2)"
proof -
  let ?pts = "matrix 1 [[F64 (1 / 4)], [F64 (1 / 2)]]"
  have sh: "shape ?pts = [2, 1]" by (simp add: matrix_def)
  obtain r where r: "eval_d0basis (P1_init 2) ?pts = Inr r" "shape r = [2 + 1, 1]"
    "\<forall>p<1. item r [0, p] = 1 - seq_sum (map (\<lambda>i. item ?pts [i, p]) [0..<2]) \<and>
            (\<forall>i<2. item r [i + 1, p] = item ?pts [i, p])"
    using P1_eval_d0basis_values [OF sh, of 2] by auto
  from r(3) have "item r [0, 0] = 1 - seq_sum [F64 (1 / 4), F64 (1 / 2)]"
    "item r [Suc 0, 0] = F64 (1 / 4)" "item r [Suc (Suc 0), 0] = F64 (1 / 2)"
    by (simp_all add: upt_2 matrix_def)
  with r(1,2) show ?thesis by (simp add: quarter_plus_half numeral_2_eq_2)
qed

lemma seq_sum_upt_Suc_shift:
  fixes f :: "nat \<Rightarrow> real"
  shows "seq_sum (map f [0..<Suc n]) = f 0 + (\<Sum>i\<leftarrow>[0..<n]. f (Suc i))"
  by (simp only: seq_sum_exact upt_Suc_shift list.map sum_list.Cons map_map comp_def)

text \<open>
  C6, as amended.  In exact arithmetic: for the P1 element of dimension \<open>d\<close> in {1, 2, 3}
  and points with \<open>nD\<close> real coordinates, \<open>0 < nD \<le> d\<close>, the values of the \<open>nD + 1\<close> basis
  functions returned by the value evaluator sum to 1 at every point.
\<close>

theorem P1_partition_of_unity_exact:
  fixes pts :: "real ndarray"
  assumes "shape pts = [nD, nP]" and "0 < nD" and "int nD \<le> d" and "d \<le> 3"
  shows "\<exists>r. eval_d0basis (P1_init d) pts = Inr r \<and> shape r = [nD + 1, nP] \<and>
           (\<forall>p<nP. seq_sum (map (\<lambda>b. item r [b, p]) [0..<nD + 1]) = 1)"
proof -
  obtain r where r: "eval_d0basis (P1_init d) pts = Inr r" "shape r = [nD + 1, nP]"
    and v: "\<forall>p<nP. item r [0, p] = 1 - seq_sum (map (\<lambda>i. item pts [i, p]) [0..<nD]) \<and>
                   (\<forall>i<nD. item r [i + 1, p] = item pts [i, p])"
    using eval_d0basis_entries [OF assms(1,3,4)] by blast
  have "seq_sum (map (\<lambda>b. item r [b, p]) [0..<nD + 1]) = 1" if p: "p < nP" for p
  proof -
    have "map (\<lambda>i. item r [Suc i, p]) [0..<nD] = map (\<lambda>i. item pts [i, p]) [0..<nD]"
      using v p by (intro map_cong) auto
    then have "(\<Sum>i\<leftarrow>[0..<nD]. item r [Suc i, p]) = (\<Sum>i\<leftarrow>[0..<nD]. item pts [i, p])"
      by (rule arg_cong)
    moreover have "item r [0, p] = 1 - (\<Sum>i\<leftarrow>[0..<nD]. item pts [i, p])"
      using v p by (simp add: seq_sum_exact)
    ultimately show ?thesis
      using seq_sum_upt_Suc_shift [of "\<lambda>b. item r [b, p]" nD] by simp
  qed
  with r show ?thesis by blast
qed

theorem P1_partition_of_unity_exact_witness:
  "\<exists>r. eval_d0basis (P1_init 2) (matrix 1 [[1 / 5], [1 / 10 :: real]]) = Inr r \<and>
        item r [0, 0] + item r [1, 0] + item r [2, 0] = 1"
proof -
  let ?pts = "matrix 1 [[1 / 5], [1 / 10 :: real]]"
  have sh: "shape ?pts = [2, 1]" by (simp add: matrix_def)
  have up: "[0..<3] = [0, Suc 0, Suc (Suc 0)]" by (simp add: upt_rec)
  obtain r where r: "eval_d0basis (P1_init 2) ?pts = Inr r"
    "\<forall>p<1. seq_sum (map (\<lambda>b. item r [b, p]) [0..<2 + 1]) = 1"
    using P1_partition_of_unity_exact [OF sh, of 2] by auto
  from r(2) have "item r [0, 0] + item r [Suc 0, 0] + item r [Suc (Suc 0), 0] = 1"
    by (simp add: up seq_sum_def)
  with r(1) show ?thesis by (simp add: numeral_2_eq_2)
qed

text \<open>
  In \<open>float64\<close> arithmetic the claim fails at the point (0.2, 0.1) of the reference
  triangle.  The sum of the coordinates is rounded to 0.30000000000000004, basis function
  0 has the value 0.7 (the double nearest to it), and the three values add up to
  0.9999999999999999 when added as floats, and to \<open>1 - pow2 (- 55)\<close> when added exactly.
\<close>

lemma sum_02_01:
  "seq_sum [double_0_2, double_0_1] = F64 (1351079888211149 / 4503599627370496)"
  by (simp add: seq_sum_def double_0_2_def double_0_1_def float64_eval round64_eval)

lemma one_minus_sum_02_01:
  "1 - F64 (1351079888211149 / 4503599627370496) = F64 (3152519739159347 / 4503599627370496)"
  by (simp add: float64_eval round64_eval)

lemma basis_sum_02_01:
  "seq_sum [F64 (3152519739159347 / 4503599627370496), double_0_2, double_0_1] =
     F64 (9007199254740991 / 9007199254740992)"
  by (simp add: seq_sum_def double_0_2_def double_0_1_def float64_eval round64_eval)

theorem P1_partition_of_unity_float64_counterexample:
  "\<exists>r. eval_d0basis (P1_init 2) point_02_01 = Inr r \<and>
        seq_sum (map (\<lambda>b. item r [b, 0]) [0..<3]) = F64 (9007199254740991 / 9007199254740992) \<and>
        seq_sum (map (\<lambda>b. item r [b, 0]) [0..<3]) \<noteq> 1 \<and>
        val (item r [0, 0]) + val (item r [1, 0]) + val (item r [2, 0]) \<noteq> 1"
proof -
  have sh: "shape point_02_01 = [2, 1]" by (simp add: point_02_01_def matrix_def)
  obtain r where r: "eval_d0basis (P1_init 2) point_02_01 = Inr r"
    and v: "\<forall>p<1. item r [0, p] = 1 - seq_sum (map (\<lambda>i. item point_02_01 [i, p]) [0..<2]) \<and>
            (\<forall>i<2. item r [i + 1, p] = item point_02_01 [i, p])"
    using eval_d0basis_entries [OF sh, of 2] by auto
  from v have "item r [0, 0] = 1 - seq_sum [double_0_2, double_0_1]"
    by (simp add: upt_2 point_02_01_def matrix_def)
  then have b0: "item r [0, 0] = F64 (3152519739159347 / 4503599627370496)"
    by (simp only: sum_02_01 one_minus_sum_02_01)
  from v have b1: "item r [Suc 0, 0] = double_0_2" and b2: "item r [2, 0] = double_0_1"
    by (simp_all add: point_02_01_def matrix_def numeral_2_eq_2)
  have s: "seq_sum (map (\<lambda>b. item r [b, 0]) [0..<3]) = F64 (9007199254740991 / 9007199254740992)"
    by (simp add: upt_3 b0 b1 b2 basis_sum_02_01)
  have "val (item r [0, 0]) + val (item r [1, 0]) + val (item r [2, 0]) \<noteq> 1"
    by (simp add: b0 b1 b2 double_0_2_def double_0_1_def)
  with r s show ?thesis by (simp add: one_float64_def)
qed

section \<open>First derivatives of the P1 basis\<close>

lemma setitem_slab:
  assumes "shape a = [n, m, k]" and "0 < n"
  shows "\<exists>r. setitem a [Ix 0] (scalar c) = Inr r \<and> shape r = [n, m, k] \<and>
           (\<forall>b p j. item r [b, p, j] = (if b = 0 then c else item a [b, p, j]))"
  using assms
  by (auto simp: setitem_def broadcast_to_def broadcast_shapes_def scalar_def Let_def)

lemma setitem_column:
  assumes "shape a = [n, m, k]" and "b0 < n" and "j0 < k"
  shows "\<exists>r. setitem a [Ix (int b0), Colon, Ix (int j0)] (scalar c) = Inr r \<and>
           shape r = [n, m, k] \<and>
           (\<forall>b p j. item r [b, p, j] = (if b = b0 \<and> j = j0 then c else item a [b, p, j]))"
  using assms
  by (auto simp: setitem_def broadcast_to_def broadcast_shapes_def scalar_def Let_def)

lemma d1_loop:
  fixes basis :: "'a::one ndarray"
  assumes "shape basis = [nB, nP, nD]" and "nD < nB"
  shows "k \<le> nD \<Longrightarrow>
         \<exists>r. for_loop [0..<k] basis (\<lambda>i basis.
                 setitem basis [Ix (int i + 1), Colon, Ix (int i)] (scalar 1)) = Inr r
            \<and> shape r = [nB, nP, nD] \<and>
           (\<forall>b p j. item r [b, p, j] =
               (if 0 < b \<and> b \<le> k \<and> j = b - 1 then 1 else item basis [b, p, j]))"
proof (induction k)
  case 0
  then show ?case using assms by simp
next
  case (Suc k)
  let ?body = "\<lambda>i basis. setitem basis [Ix (int i + 1), Colon, Ix (int i)] (scalar (1::'a))"
  from Suc obtain r where r: "for_loop [0..<k] basis ?body = Inr r" "shape r = [nB, nP, nD]"
      "\<forall>b p j. item r [b, p, j] =
               (if 0 < b \<and> b \<le> k \<and> j = b - 1 then 1 else item basis [b, p, j])"
    by auto
  have "Suc k < nB" "k < nD" using Suc.prems assms(2) by auto
  from setitem_column [OF r(2) this, of 1]
  obtain r' where r': "setitem r [Ix (int (Suc k)), Colon, Ix (int k)] (scalar 1) = Inr r'"
     "shape r' = [nB, nP, nD]"
     "\<forall>b p j. item r' [b, p, j] = (if b = Suc k \<and> j = k then 1 else item r [b, p, j])"
    by blast
  have eq: "int k + 1 = int (Suc k)" by simp
  have "for_loop [0..<Suc k] basis ?body = Inr r'"
    using for_loop_snoc [OF r(1)] r'(1) by (simp only: eq)
  moreover have "\<forall>b p j. item r' [b, p, j] =
               (if 0 < b \<and> b \<le> Suc k \<and> j = b - 1 then 1 else item basis [b, p, j])"
    using r(3) r'(3) by (auto simp: le_Suc_eq)
  ultimately show ?case using r'(2) by blast
qed

lemma eval_d1basis_entries:
  fixes pts :: "'a::{zero, one, uminus} ndarray"
  assumes "shape pts = [nD, nP]" and "int nD \<le> d" and "d \<le> 3"
  shows "\<exists>r. eval_d1basis (P1_init d) pts = Inr r \<and> shape r = [nD + 1, nP, nD] \<and>
           (\<forall>p j. item r [0, p, j] = - 1) \<and>
           (\<forall>i<nD. \<forall>p j. item r [i + 1, p, j] = (if j = i then 1 else 0))"
proof -
  let ?body = "\<lambda>i basis. setitem basis [Ix (int i + 1), Colon, Ix (int i)] (scalar (1::'a))"
  have nB: "py_index (n_basis (P1_init d)) (int nD) = Inr (Suc nD)"
    using assms by (simp add: n_basis_P1)
  have z: "shape (zeros [Suc nD, nP, nD] :: 'a ndarray) = [Suc nD, nP, nD]"
    by (simp add: zeros_def full_def)
  obtain basis where b: "setitem (zeros [Suc nD, nP, nD]) [Ix 0] (scalar (- 1 :: 'a)) = Inr basis"
      "shape basis = [Suc nD, nP, nD]"
      "\<forall>b p j. item basis [b, p, j] =
          (if b = 0 then - 1 else item (zeros [Suc nD, nP, nD] :: 'a ndarray) [b, p, j])"
    using setitem_slab [OF z, of "- 1"] by auto
  obtain r where r: "for_loop [0..<nD] basis ?body = Inr r" "shape r = [Suc nD, nP, nD]"
      "\<forall>b p j. item r [b, p, j] =
               (if 0 < b \<and> b \<le> nD \<and> j = b - 1 then 1 else item basis [b, p, j])"
    using d1_loop [OF b(2), of nD] by auto
  have "eval_d1basis (P1_init d) pts = Inr r"
    using assms(1) nB b(1) r(1) by (simp add: eval_d1basis_def unpack2_def)
  then show ?thesis using r(2,3) b(3) by (auto simp: zeros_def full_def)
qed

text \<open>Sums of the numbers \<open>- 1\<close>, 0 and 1 are exact in \<open>float64\<close> arithmetic.\<close>

lemma float64_small_sums:
  "(0::float64) + 0 = 0" "(0::float64) + - 1 = - 1" "(- 1 :: float64) + 0 = - 1"
  "(- 1 :: float64) + 1 = 0"
  by (simp_all add: float64_eval round64_eval)

lemma foldl_unit_vector:
  fixes j :: nat
  shows "foldl (+) (- 1 :: float64) (map (\<lambda>i. if j = i then 1 else 0) [0..<n]) =
           (if j < n then 0 else - 1)"
  by (induction n) (auto simp: float64_small_sums)

lemma seq_sum_gradients:
  assumes "j < n"
  shows "seq_sum ((- 1 :: float64) # map (\<lambda>i. if j = i then 1 else 0) [0..<n]) = 0"
  using assms by (simp add: seq_sum_def float64_small_sums foldl_unit_vector)

text \<open>
  C7.  For the P1 element of dimension \<open>d\<close> in {1, 2, 3} and points with \<open>nD\<close> coordinates,
  \<open>0 < nD \<le> d\<close>, the first-derivative evaluator returns at every point the vector of
  all \<open>- 1\<close> for basis function 0 and the \<open>i\<close>-th unit vector for basis function \<open>i + 1\<close>;
  in every direction the derivatives of all basis functions, added in \<open>float64\<close>
  arithmetic, sum to 0.
\<close>

theorem P1_eval_d1basis_gradients:
  fixes pts :: "float64 ndarray"
  assumes "shape pts = [nD, nP]" and "0 < nD" and "int nD \<le> d" and "d \<le> 3"
  shows "\<exists>r. eval_d1basis (P1_init d) pts = Inr r \<and> shape r = [nD + 1, nP, nD] \<and>
           (\<forall>p<nP. \<forall>j<nD.
              item r [0, p, j] = - 1 \<and>
              (\<forall>i<nD. item r [i + 1, p, j] = (if j = i then 1 else 0)) \<and>
              seq_sum (map (\<lambda>b. item r [b, p, j]) [0..<nD + 1]) = 0)"
proof -
  obtain r where r: "eval_d1basis (P1_init d) pts = Inr r" "shape r = [nD + 1, nP, nD]"
    and v0: "\<forall>p j. item r [0, p, j] = - 1"
    and v: "\<forall>i<nD. \<forall>p j. item r [i + 1, p, j] = (if j = i then 1 else 0)"
    using eval_d1basis_entries [OF assms(1,3,4)] by blast
  have "seq_sum (map (\<lambda>b. item r [b, p, j]) [0..<nD + 1]) = 0" if j: "j < nD" for p j
  proof -
    have "map (\<lambda>i. item r [Suc i, p, j]) [0..<nD] = map (\<lambda>i. if j = i then 1 else 0) [0..<nD]"
      using v by (intro map_cong) auto
    then have "map (\<lambda>b. item r [b, p, j]) [0..<nD + 1] =
        - 1 # map (\<lambda>i. if j = i then 1 else 0) [0..<nD]"
      using v0 by (simp add: upt_Suc_shift comp_def del: upt_Suc)
    then show ?thesis using seq_sum_gradients [OF j] by simp
  qed
  with r v0 v show ?thesis by auto
qed

theorem P1_eval_d1basis_gradients_witness:
  "\<exists>r. eval_d1basis (P1_init 2) point_02_01 = Inr r \<and> shape r = [3, 1, 2] \<and>
        item r [0, 0, 1] = - 1 \<and> item r [1, 0, 1] = 0 \<and> item r [2, 0, 1] = 1 \<and>
        seq_sum [item r [0, 0, 1], item r [1, 0, 1], item r [2, 0, 1]] = 0"
proof -
  have sh: "shape point_02_01 = [2, 1]" by (simp add: point_02_01_def matrix_def)
  obtain r where r: "eval_d1basis (P1_init 2) point_02_01 = Inr r" "shape r = [2 + 1, 1, 2]"
    "\<forall>p<1. \<forall>j<2. item r [0, p, j] = - 1 \<and>
              (\<forall>i<2. item r [i + 1, p, j] = (if j = i then 1 else 0)) \<and>
              seq_sum (map (\<lambda>b. item r [b, p, j]) [0..<2 + 1]) = 0"
    using P1_eval_d1basis_gradients [OF sh, of 2] by auto
  have up: "[0..<3] = [0, Suc 0, Suc (Suc 0)]" by (simp add: upt_rec)
  from r(3) have "item r [0, 0, Suc 0] = - 1" "item r [Suc 0, 0, Suc 0] = 0"
    "item r [Suc (Suc 0), 0, Suc 0] = 1"
    "seq_sum [item r [0, 0, Suc 0], item r [Suc 0, 0, Suc 0], item r [Suc (Suc 0), 0, Suc 0]] = 0"
    by (simp_all add: up seq_sum_def float64_small_sums)
  with r(1,2) show ?thesis by (simp add: numeral_2_eq_2)
qed

section \<open>Exceptions: where they come from\<close>

lemma view_error: "view its sh = Inl e \<Longrightarrow> \<exists>m. e = IndexError m"
  by (induction its sh rule: view.induct)
     (auto simp: Let_def split: if_splits elim!: bindE_Inl)

lemma getitem_error: "getitem a its = Inl e \<Longrightarrow> numpy_error e"
  by (auto simp: getitem_def numpy_error_def elim!: bindE_Inl dest: view_error)

lemma binop_error: "binop f a b = Inl e \<Longrightarrow> numpy_error e"
  by (auto simp: binop_def numpy_error_def split: option.splits)

lemma normalize_axis_error: "normalize_axis k n = Inl e \<Longrightarrow> numpy_error e"
  by (auto simp: normalize_axis_def numpy_error_def split: if_splits)

lemma np_sum_error: "np_sum a k = Inl e \<Longrightarrow> numpy_error e"
  by (auto simp: np_sum_def elim!: bindE_Inl dest: normalize_axis_error)

lemma swapaxes_error: "swapaxes a i j = Inl e \<Longrightarrow> numpy_error e"
  by (auto simp: swapaxes_def elim!: bindE_Inl dest: normalize_axis_error)

lemma take0_error: "take0 a ind = Inl e \<Longrightarrow> numpy_error e"
  by (auto simp: take0_def numpy_error_def Let_def split: if_splits)

lemma py_index_error: "py_index xs i = Inl e \<Longrightarrow> numpy_error e"
  by (auto simp: py_index_def numpy_error_def split: if_splits)

lemmas numpy_errors = getitem_error binop_error np_sum_error swapaxes_error take0_error

lemma eval_global_derivatives_error:
  assumes "eval_global_derivatives self pts deriv = Inl e" and "deriv = 1 \<or> deriv = 2"
  shows "jacobian_inverse (ref_map (mesh self)) pts = Inl e \<or>
         eval_basis (element self) pts deriv = Inl e \<or> numpy_error e"
  using assms unfolding eval_global_derivatives_def
  by (auto elim!: bindE_Inl dest: numpy_errors split: if_splits)

lemma invalid_order_msg_not_numpy: "\<not> numpy_error (ValueError (invalid_order_msg k))"
  by (simp add: numpy_error_def invalid_order_msg_def)

lemma eval_dofs_error:
  assumes "eval_dofs self dofs pts deriv True = Inl e"
  shows "(\<exists>n. np_size_axis pts 0 = Inr n \<and> int n < int (Mesh.dimension (mesh self)) \<and>
            0 < deriv) \<or>
         (\<exists>n. get_dof_map self n = Inl e) \<or>
         eval_basis (element self) pts deriv = Inl e \<or>
         jacobian_inverse (ref_map (mesh self)) pts = Inl e \<or>
         numpy_error e \<or> e = NameError ''name d is not defined''"
proof -
  have g: "eval_global_derivatives self pts 1 = Inl e \<Longrightarrow>
       jacobian_inverse (ref_map (mesh self)) pts = Inl e \<or>
         eval_basis (element self) pts 1 = Inl e \<or> numpy_error e"
    using eval_global_derivatives_error [of self pts 1 e] by simp
  show ?thesis
    using assms unfolding eval_dofs_def np_size_axis_def
    by (auto elim!: bindE_Inl dest!: numpy_errors py_index_error g split: if_splits)
qed

text \<open>The example space: its points, and what its element and its maps return there.\<close>

lemma str_int_3: "str_int 3 = ''3''"
  by (simp add: str_int_def str_nat.simps [of 3] digit_char_def)

lemma shape_quarter_points: "shape (matrix 2 [[F64 (1 / 4), F64 (3 / 4)]]) = [1, 2]"
  by (simp add: matrix_def)

lemma eval_basis_interval:
  "\<exists>r. eval_basis (element interval_space) (matrix 2 [[F64 (1 / 4), F64 (3 / 4)]]) 0 = Inr r"
  "\<exists>r. eval_basis (element interval_space) (matrix 2 [[F64 (1 / 4), F64 (3 / 4)]]) 1 = Inr r"
  using eval_d0basis_entries [OF shape_quarter_points, of 1]
    eval_d1basis_entries [OF shape_quarter_points, of 1]
  by (auto simp: interval_space_def P1_element_def P1_eval_basis_def)

lemma jacobian_inverse_interval:
  "\<exists>r. jacobian_inverse (ref_map (mesh interval_space)) pts = Inr r"
  by (simp add: interval_space_def interval_mesh_def)

text \<open>
  C3.  \<^verbatim>\<open>eval_global_derivatives\<close> raises the \<open>ValueError\<close> with the invalid-order message
  for every order other than 1 and 2, whatever the reference map and the element would do;
  for the orders 1 and 2 it never ends in that error unless the reference map or the
  element raised it.
\<close>

theorem eval_global_derivatives_order_guard:
  "(deriv \<noteq> 1 \<and> deriv \<noteq> 2 \<longrightarrow>
      eval_global_derivatives self pts deriv = Inl (ValueError (invalid_order_msg deriv))) \<and>
   ((deriv = 1 \<or> deriv = 2) \<and>
    jacobian_inverse (ref_map (mesh self)) pts \<noteq> Inl (ValueError (invalid_order_msg k)) \<and>
    eval_basis (element self) pts deriv \<noteq> Inl (ValueError (invalid_order_msg k)) \<longrightarrow>
      eval_global_derivatives self pts deriv \<noteq> Inl (ValueError (invalid_order_msg k)))"
proof (intro conjI impI)
  assume "deriv \<noteq> 1 \<and> deriv \<noteq> 2"
  then show "eval_global_derivatives self pts deriv = Inl (ValueError (invalid_order_msg deriv))"
    by (simp add: eval_global_derivatives_def)
next
  assume a: "(deriv = 1 \<or> deriv = 2) \<and>
    jacobian_inverse (ref_map (mesh self)) pts \<noteq> Inl (ValueError (invalid_order_msg k)) \<and>
    eval_basis (element self) pts deriv \<noteq> Inl (ValueError (invalid_order_msg k))"
  show "eval_global_derivatives self pts deriv \<noteq> Inl (ValueError (invalid_order_msg k))"
  proof
    assume "eval_global_derivatives self pts deriv = Inl (ValueError (invalid_order_msg k))"
    from eval_global_derivatives_error [OF this] a
    have "numpy_error (ValueError (invalid_order_msg k))" by blast
    then show False by (simp add: invalid_order_msg_not_numpy)
  qed
qed

theorem eval_global_derivatives_order_guard_witness:
  "eval_global_derivatives interval_space (matrix 2 [[F64 (1 / 4), F64 (3 / 4)]]) 3 =
     Inl (ValueError ''Invalid derivation order for global derivatives! (3)'') \<and>
   eval_global_derivatives interval_space (matrix 2 [[F64 (1 / 4), F64 (3 / 4)]]) 1 \<noteq>
     Inl (ValueError ''Invalid derivation order for global derivatives! (3)'')"
proof -
  let ?pts = "matrix 2 [[F64 (1 / 4), F64 (3 / 4)]]"
  have msg: "invalid_order_msg 3 = ''Invalid derivation order for global derivatives! (3)''"
    by (simp add: invalid_order_msg_def str_int_3)
  have j: "jacobian_inverse (ref_map (mesh interval_space)) ?pts \<noteq>
             Inl (ValueError (invalid_order_msg 3))"
    using jacobian_inverse_interval [of ?pts] by auto
  have b: "eval_basis (element interval_space) ?pts 1 \<noteq> Inl (ValueError (invalid_order_msg 3))"
    using eval_basis_interval(2) by auto
  show ?thesis
    using eval_global_derivatives_order_guard [of 3 interval_space ?pts 3]
      eval_global_derivatives_order_guard [of 1 interval_space ?pts 3] j b
    by (simp add: msg)
qed

text \<open>
  C4.  \<^verbatim>\<open>eval_dofs\<close> raises \<open>NotImplementedError\<close> when \<open>local\<close> is false, and when the
  points have fewer coordinates than the mesh has dimensions while \<open>deriv > 0\<close>.  In every
  other case it does not end in a \<open>NotImplementedError\<close>, unless the degrees-of-freedom
  manager, the element or the reference map raised that very exception.
\<close>

theorem eval_dofs_not_supported:
  "(\<not> local \<longrightarrow> eval_dofs self dofs pts deriv local = Inl (NotImplementedError [])) \<and>
   (local \<and> np_size_axis pts 0 = Inr k \<and> int k < int (Mesh.dimension (mesh self)) \<and>
    0 < deriv \<longrightarrow>
      eval_dofs self dofs pts deriv local =
        Inl (NotImplementedError ''Higher order derivatives for traces not supported!'')) \<and>
   (local \<and>
    \<not> (\<exists>n. np_size_axis pts 0 = Inr n \<and> int n < int (Mesh.dimension (mesh self)) \<and> 0 < deriv) \<and>
    (\<forall>n. get_dof_map self n \<noteq> Inl (NotImplementedError m)) \<and>
    eval_basis (element self) pts deriv \<noteq> Inl (NotImplementedError m) \<and>
    jacobian_inverse (ref_map (mesh self)) pts \<noteq> Inl (NotImplementedError m) \<longrightarrow>
      eval_dofs self dofs pts deriv local \<noteq> Inl (NotImplementedError m))"
proof (intro conjI impI)
  assume "\<not> local"
  then show "eval_dofs self dofs pts deriv local = Inl (NotImplementedError [])"
    by (simp add: eval_dofs_def)
next
  assume "local \<and> np_size_axis pts 0 = Inr k \<and> int k < int (Mesh.dimension (mesh self)) \<and>
    0 < deriv"
  then show "eval_dofs self dofs pts deriv local =
        Inl (NotImplementedError ''Higher order derivatives for traces not supported!'')"
    by (simp add: eval_dofs_def)
next
  assume a: "local \<and>
    \<not> (\<exists>n. np_size_axis pts 0 = Inr n \<and> int n < int (Mesh.dimension (mesh self)) \<and> 0 < deriv) \<and>
    (\<forall>n. get_dof_map self n \<noteq> Inl (NotImplementedError m)) \<and>
    eval_basis (element self) pts deriv \<noteq> Inl (NotImplementedError m) \<and>
    jacobian_inverse (ref_map (mesh self)) pts \<noteq> Inl (NotImplementedError m)"
  show "eval_dofs self dofs pts deriv local \<noteq> Inl (NotImplementedError m)"
  proof
    assume "eval_dofs self dofs pts deriv local = Inl (NotImplementedError m)"
    with a have "eval_dofs self dofs pts deriv True = Inl (NotImplementedError m)" by simp
    from eval_dofs_error [OF this] a show False
      by (auto simp: numpy_error_def)
  qed
qed

theorem eval_dofs_not_supported_witness:
  "eval_dofs interval_space (vector [F64 1, F64 1, F64 5])
     (matrix 2 [[F64 (1 / 4), F64 (3 / 4)]]) 0 False = Inl (NotImplementedError []) \<and>
   eval_dofs interval_space (vector [F64 1, F64 1, F64 5]) (matrix 1 []) 1 True =
     Inl (NotImplementedError ''Higher order derivatives for traces not supported!'') \<and>
   eval_dofs interval_space (vector [F64 1, F64 1, F64 5])
     (matrix 2 [[F64 (1 / 4), F64 (3 / 4)]]) 0 True \<noteq> Inl (NotImplementedError [])"
proof -
  let ?dofs = "vector [F64 1, F64 1, F64 5]" and ?pts = "matrix 2 [[F64 (1 / 4), F64 (3 / 4)]]"
  have 1: "eval_dofs interval_space ?dofs ?pts 0 False = Inl (NotImplementedError [])"
    using eval_dofs_not_supported [where local = False and self = interval_space
        and dofs = ?dofs and pts = ?pts and deriv = 0]
    by simp
  have "np_size_axis (matrix 1 ([] :: float64 list list)) 0 = Inr 0"
    by (simp add: np_size_axis_def py_index_def matrix_def)
  moreover have "int 0 < int (Mesh.dimension (mesh interval_space))"
    by (simp add: interval_space_def interval_mesh_def)
  ultimately have 2: "eval_dofs interval_space ?dofs (matrix 1 []) 1 True =
     Inl (NotImplementedError ''Higher order derivatives for traces not supported!'')"
    using eval_dofs_not_supported [where local = True and self = interval_space
        and dofs = ?dofs and pts = "matrix 1 []" and deriv = 1 and k = 0]
    by simp
  have a: "\<not> (\<exists>n. np_size_axis ?pts 0 = Inr n \<and> int n < int (Mesh.dimension (mesh interval_space))
              \<and> 0 < (0::int))"
    by simp
  have b: "\<forall>n. get_dof_map interval_space n \<noteq> Inl (NotImplementedError [])"
    by (simp add: interval_space_def)
  have c: "eval_basis (element interval_space) ?pts 0 \<noteq> Inl (NotImplementedError [])"
    using eval_basis_interval(1) by auto
  have d: "jacobian_inverse (ref_map (mesh interval_space)) ?pts \<noteq> Inl (NotImplementedError [])"
    using jacobian_inverse_interval [of ?pts] by auto
  have 3: "eval_dofs interval_space ?dofs ?pts 0 True \<noteq> Inl (NotImplementedError [])"
    using eval_dofs_not_supported [where local = True and self = interval_space
        and dofs = ?dofs and pts = ?pts and deriv = 0 and m = "[]"] a b c d
    by blast
  from 1 2 3 show ?thesis by blast
qed

text \<open>
  C10.  With \<open>local\<close> true, points of the mesh's dimension and an order other than 0 and 1,
  \<^verbatim>\<open>eval_dofs\<close> fails; once the degrees of freedom have been gathered, the exception is the
  \<open>NameError\<close> for the undefined name \<^verbatim>\<open>d\<close>, not the \<open>NotImplementedError\<close> that the
  \<^verbatim>\<open>raise\<close> statement was written to raise.
\<close>

theorem eval_dofs_invalid_order_name_error:
  assumes "np_size_axis pts 0 = Inr n" and "n = Mesh.dimension (mesh self)"
    and "deriv \<noteq> 0" and "deriv \<noteq> 1"
  shows "(\<exists>e. eval_dofs self dofs pts deriv True = Inl e) \<and>
         (\<forall>dof_map vals.
            get_dof_map self n = Inr dof_map \<and>
            take0 dofs (map_array (\<lambda>i. i - 1) dof_map) = Inr vals \<longrightarrow>
              eval_dofs self dofs pts deriv True = Inl (NameError ''name d is not defined''))"
proof -
  have "\<exists>e. eval_dofs self dofs pts deriv True = Inl e"
  proof (cases "get_dof_map self n")
    case (Inl e)
    then show ?thesis using assms by (simp add: eval_dofs_def)
  next
    case (Inr dof_map)
    then show ?thesis using assms
      by (cases "take0 dofs (map_array (\<lambda>i. i - 1) dof_map)") (simp_all add: eval_dofs_def)
  qed
  moreover have "\<forall>dof_map vals.
            get_dof_map self n = Inr dof_map \<and>
            take0 dofs (map_array (\<lambda>i. i - 1) dof_map) = Inr vals \<longrightarrow>
              eval_dofs self dofs pts deriv True = Inl (NameError ''name d is not defined'')"
    using assms by (simp add: eval_dofs_def)
  ultimately show ?thesis by blast
qed

theorem eval_dofs_invalid_order_name_error_witness:
  "eval_dofs interval_space (vector [F64 1, F64 1, F64 5])
     (matrix 2 [[F64 (1 / 4), F64 (3 / 4)]]) 2 True = Inl (NameError ''name d is not defined'')"
proof -
  let ?dofs = "vector [F64 1, F64 1, F64 5]" and ?pts = "matrix 2 [[F64 (1 / 4), F64 (3 / 4)]]"
  let ?map = "matrix 2 [[1, 3], [2, 2 :: int]]"
  have n: "np_size_axis ?pts 0 = Inr 1" "1 = Mesh.dimension (mesh interval_space)"
    by (simp_all add: np_size_axis_def py_index_def matrix_def interval_space_def interval_mesh_def)
  have m: "get_dof_map interval_space 1 = Inr ?map"
    by (simp add: interval_space_def)
  have "\<exists>vals. take0 ?dofs (map_array (\<lambda>i. i - 1) ?map) = Inr vals"
    by (simp add: take0_def promote_0d_def vector_def matrix_def map_array_def array_all_def
        indices_of_def upt_2 Let_def)
  then show ?thesis
    using eval_dofs_invalid_order_name_error [OF n, of 2 ?dofs] m by auto
qed

section \<open>Quadrature data\<close>

lemma abs_float64_nonneg: "0 \<le> \<bar>x :: float64\<bar>"
  by (cases x) (simp add: float64_eval)

text \<open>
  C2.  When the quadrature points of dimension \<open>d\<close> form a non-empty array,
  \<^verbatim>\<open>get_quadrature_data\<close> returns the points, the weights and an array of the shape of the
  reference map's determinants whose every entry is the absolute value of the
  corresponding determinant, hence not negative.
\<close>

theorem get_quadrature_data_abs:
  fixes self :: "float64 FESpace"
  assumes "py_index (points (quad_rule self)) d = Inr qpoints"
    and "py_index (weights (quad_rule self)) d = Inr qweights"
    and "0 < np_size qpoints"
    and "jacobian_determinant (ref_map (mesh self)) qpoints = Inr raw"
  shows "\<exists>jac_dets. get_quadrature_data self d = Inr (qpoints, qweights, jac_dets) \<and>
           shape jac_dets = shape raw \<and>
           (\<forall>idx. item jac_dets idx = \<bar>item raw idx\<bar> \<and> 0 \<le> item jac_dets idx)"
  using assms by (simp add: get_quadrature_data_def np_abs_def map_array_def abs_float64_nonneg)

theorem get_quadrature_data_abs_witness:
  "\<exists>jac_dets. get_quadrature_data interval_space 1 =
       Inr (matrix 2 [[F64 (1 / 4), F64 (3 / 4)]], vector [F64 (1 / 2), F64 (1 / 2)], jac_dets) \<and>
     shape jac_dets = [2, 2] \<and> item jac_dets [0, 0] = F64 1 \<and> item jac_dets [1, 0] = F64 2"
proof -
  let ?pts = "matrix 2 [[F64 (1 / 4), F64 (3 / 4)]]"
  let ?raw = "\<lparr>shape = [2, 2], item = (\<lambda>idx. [F64 1, F64 (- 2)] ! hd idx)\<rparr>"
  have p: "py_index (points (quad_rule interval_space)) 1 = Inr ?pts"
    and w: "py_index (weights (quad_rule interval_space)) 1 = Inr (vector [F64 (1 / 2), F64 (1 / 2)])"
    by (simp_all add: interval_space_def py_index_def)
  have s: "0 < np_size ?pts"
    by (simp add: np_size_def matrix_def)
  have j: "jacobian_determinant (ref_map (mesh interval_space)) ?pts = Inr ?raw"
    by (simp add: interval_space_def interval_mesh_def matrix_def)
  from get_quadrature_data_abs [OF p w s j] show ?thesis
    by (auto simp: abs_float64_def)
qed

section \<open>Construction of a mesh\<close>

text \<open>
  C8.  For a table of node coordinates with rows of width \<open>w\<close>, \<^verbatim>\<open>Mesh.__init__\<close> fails
  with \<open>AssertionError\<close> when \<open>w\<close> is not 1, 2 or 3, before geometry, topology or reference
  map are built; when \<open>w\<close> is 1, 2 or 3 and these three are built without an exception,
  the mesh is constructed and its dimension is \<open>w\<close>.
\<close>

theorem Mesh_init_dimension:
  assumes "shape nodes0 = [n, w]"
  shows "(\<not> (1 \<le> w \<and> w \<le> 3) \<longrightarrow> Mesh_init env nodes0 connectivity = Inl AssertionError) \<and>
         (1 \<le> w \<and> w \<le> 3 \<and> new_MeshGeometry env nodes0 = Inr g \<and>
          new_MeshTopology env connectivity w = Inr t \<and> new_ReferenceMap env w g t = Inr rm \<longrightarrow>
            (\<exists>m. Mesh_init env nodes0 connectivity = Inr m \<and> Mesh.dimension m = w))"
  using assms by (simp add: Mesh_init_def atleast_2d_def py_index_def)

theorem Mesh_init_dimension_witness:
  "Mesh_init plain_constructors (matrix 4 [[F64 0, F64 0, F64 0, F64 0]]) (matrix 2 [[1, 1]]) =
     Inl AssertionError \<and>
   (\<exists>m. Mesh_init plain_constructors (matrix 2 [[F64 0, F64 0], [F64 1, F64 0], [F64 0, F64 1]])
          (matrix 3 [[1, 2, 3]]) = Inr m \<and>
        Mesh.dimension m = 2)"
proof -
  let ?line = "matrix 4 [[F64 0, F64 0, F64 0, F64 0]]"
  let ?triangle = "matrix 2 [[F64 0, F64 0], [F64 1, F64 0], [F64 0, F64 1]]"
  have 1: "shape ?line = [1, 4]" and 2: "shape ?triangle = [3, 2]"
    by (simp_all add: matrix_def)
  have "Mesh_init plain_constructors ?line (matrix 2 [[1, 1]]) = Inl AssertionError"
    using Mesh_init_dimension [OF 1, of plain_constructors "matrix 2 [[1, 1]]"] by simp
  moreover have "\<exists>m. Mesh_init plain_constructors ?triangle (matrix 3 [[1, 2, 3]]) = Inr m \<and>
      Mesh.dimension m = 2"
    using Mesh_init_dimension [OF 2, of plain_constructors "matrix 3 [[1, 2, 3]]"]
    by (simp add: plain_constructors_def)
  ultimately show ?thesis by blast
qed

section \<open>Pull-back of first derivatives\<close>

lemma broadcast_first_order:
  "broadcast_shapes [nE, Suc 0, nP, nD, nD] [Suc 0, nB, nP, nD, Suc 0] = Some [nE, nB, nP, nD, nD]"
  by (auto simp: broadcast_shapes_def)

lemma bidx_inv_jac:
  assumes "e < nE" and "p < nP" and "k < nD" and "j < nD"
  shows "bidx [nE, Suc 0, nP, nD, nD] [e, b, p, k, j] = [e, 0, p, k, j]"
  using assms by (auto simp: bidx_def)

lemma bidx_local:
  assumes "b < nB" and "p < nP" and "k < nD"
  shows "bidx [Suc 0, nB, nP, nD, Suc 0] [e, b, p, k, j] = [0, b, p, k, 0]"
  using assms by (auto simp: bidx_def)

lemma view_inv_jac:
  assumes "shape a = [nE, nP, nD, nD]"
  shows "\<exists>r. getitem a [Colon, NewAxis, Colon, Colon, Colon] = Inr r \<and>
           shape r = [nE, 1, nP, nD, nD] \<and>
           (\<forall>e z p k j. item r [e, z, p, k, j] = item a [e, p, k, j])"
  using assms by (simp add: getitem_def)

lemma view_local:
  assumes "shape a = [nB, nP, nD]"
  shows "\<exists>r. getitem a [NewAxis, Colon, Colon, Colon, NewAxis] = Inr r \<and>
           shape r = [1, nB, nP, nD, 1] \<and>
           (\<forall>z b p k y. item r [z, b, p, k, y] = item a [b, p, k])"
  using assms by (simp add: getitem_def)

lemma contract_first_order:
  fixes a b :: "'a::{zero, plus, times} ndarray"
  assumes "shape a = [nE, 1, nP, nD, nD]" and "shape b = [1, nB, nP, nD, 1]"
  shows "\<exists>prod r. binop (*) a b = Inr prod \<and> np_sum prod (- 2) = Inr r \<and>
           shape r = [nE, nB, nP, nD] \<and>
           (\<forall>e<nE. \<forall>c<nB. \<forall>p<nP. \<forall>j<nD.
              item r [e, c, p, j] =
                seq_sum (map (\<lambda>k. item a [e, 0, p, k, j] * item b [0, c, p, k, 0]) [0..<nD]))"
proof -
  let ?prod = "\<lparr>shape = [nE, nB, nP, nD, nD],
     item = (\<lambda>idx. item a (bidx (shape a) idx) * item b (bidx (shape b) idx))\<rparr>"
  have prod: "binop (*) a b = Inr ?prod"
    using assms by (simp add: binop_def broadcast_first_order)
  let ?r = "\<lparr>shape = [nE, nB, nP, nD],
     item = (\<lambda>idx. seq_sum (map (\<lambda>k. item ?prod (take 3 idx @ k # drop 3 idx)) [0..<nD]))\<rparr>"
  have r: "np_sum ?prod (- 2) = Inr ?r"
    by (simp add: np_sum_def normalize_axis_def)
  have "item ?r [e, c, p, j] =
      seq_sum (map (\<lambda>k. item a [e, 0, p, k, j] * item b [0, c, p, k, 0]) [0..<nD])"
    if "e < nE" "c < nB" "p < nP" "j < nD" for e c p j
  proof -
    have "map (\<lambda>k. item ?prod (take 3 [e, c, p, j] @ k # drop 3 [e, c, p, j])) [0..<nD] =
          map (\<lambda>k. item a [e, 0, p, k, j] * item b [0, c, p, k, 0]) [0..<nD]"
      using that assms by (intro map_cong) (simp_all add: bidx_inv_jac bidx_local)
    then show ?thesis by (simp del: map_eq_conv)
  qed
  with prod r show ?thesis by (intro exI [of _ ?prod] exI [of _ ?r]) simp
qed

text \<open>
  C1.  When the reference map returns the inverse Jacobians as an \<open>nE x nP x nD x nD\<close> array
  and the element the local first derivatives as an \<open>nB x nP x nD\<close> array,
  \<^verbatim>\<open>eval_global_derivatives\<close> with \<open>deriv = 1\<close> returns an \<open>nE x nB x nP x nD\<close> array whose
  entry for cell \<open>e\<close>, basis function \<open>b\<close>, point \<open>p\<close> and physical axis \<open>j\<close> is the sum over
  the reference axes \<open>k\<close> of the inverse Jacobian's entry \<open>[e, p, k, j]\<close> times the local
  derivative's entry \<open>[b, p, k]\<close>.  This holds in every arithmetic, with the products and
  the sum from \<open>k = 0\<close> upwards computed in it.
\<close>

theorem eval_global_derivatives_first_order:
  fixes self :: "'a::{zero, plus, times} FESpace"
  assumes "jacobian_inverse (ref_map (mesh self)) pts = Inr inv_jac"
    and "shape inv_jac = [nE, nP, nD, nD]"
    and "eval_basis (element self) pts 1 = Inr local_derivatives"
    and "shape local_derivatives = [nB, nP, nD]"
  shows "\<exists>r. eval_global_derivatives self pts 1 = Inr r \<and> shape r = [nE, nB, nP, nD] \<and>
           (\<forall>e<nE. \<forall>b<nB. \<forall>p<nP. \<forall>j<nD.
              item r [e, b, p, j] =
                seq_sum (map (\<lambda>k. item inv_jac [e, p, k, j] * item local_derivatives [b, p, k])
                           [0..<nD]))"
proof -
  obtain a where a: "getitem inv_jac [Colon, NewAxis, Colon, Colon, Colon] = Inr a"
      "shape a = [nE, 1, nP, nD, nD]" "\<forall>e z p k j. item a [e, z, p, k, j] = item inv_jac [e, p, k, j]"
    using view_inv_jac [OF assms(2)] by blast
  obtain b where b: "getitem local_derivatives [NewAxis, Colon, Colon, Colon, NewAxis] = Inr b"
      "shape b = [1, nB, nP, nD, 1]"
      "\<forall>z c p k y. item b [z, c, p, k, y] = item local_derivatives [c, p, k]"
    using view_local [OF assms(4)] by blast
  obtain prod r where r: "binop (*) a b = Inr prod" "np_sum prod (- 2) = Inr r"
      "shape r = [nE, nB, nP, nD]"
      "\<forall>e<nE. \<forall>c<nB. \<forall>p<nP. \<forall>j<nD.
          item r [e, c, p, j] =
            seq_sum (map (\<lambda>k. item a [e, 0, p, k, j] * item b [0, c, p, k, 0]) [0..<nD])"
    using contract_first_order [OF a(2) b(2)] by blast
  have "eval_global_derivatives self pts 1 = Inr r"
    using assms(1,3) a(1) b(1) r(1,2) by (simp add: eval_global_derivatives_def)
  then show ?thesis using r(3,4) a(3) b(3) by simp
qed

lemma float64_half_products:
  "seq_sum [F64 (- (1 / 2)) * - 1] = F64 (1 / 2)" "seq_sum [F64 (- (1 / 2)) * 1] = F64 (- (1 / 2))"
  by (simp_all add: seq_sum_def float64_eval round64_eval)

theorem eval_global_derivatives_first_order_witness:
  "\<exists>r. eval_global_derivatives interval_space (matrix 2 [[F64 (1 / 4), F64 (3 / 4)]]) 1 = Inr r \<and>
        shape r = [2, 2, 2, 1] \<and> item r [1, 0, 0, 0] = F64 (1 / 2) \<and>
        item r [1, 1, 0, 0] = F64 (- (1 / 2))"
proof -
  let ?pts = "matrix 2 [[F64 (1 / 4), F64 (3 / 4)]]"
  let ?inv_jac = "\<lparr>shape = [2, 2, 1, 1], item = (\<lambda>idx. [F64 1, F64 (- (1 / 2))] ! hd idx)\<rparr>"
  have j: "jacobian_inverse (ref_map (mesh interval_space)) ?pts = Inr ?inv_jac"
    by (simp add: interval_space_def interval_mesh_def matrix_def)
  have sj: "shape ?inv_jac = [2, 2, 1, 1]" by simp
  from eval_d1basis_entries [OF shape_quarter_points, of 1]
  obtain loc where loc: "eval_d1basis (P1_init 1) ?pts = Inr loc" "shape loc = [1 + 1, 2, 1]"
    "\<forall>p j. item loc [0, p, j] = - 1"
    "\<forall>i<1. \<forall>p j. item loc [i + 1, p, j] = (if j = i then 1 else 0)"
    by auto
  have b: "eval_basis (element interval_space) ?pts 1 = Inr loc"
    using loc(1) by (simp add: interval_space_def P1_element_def P1_eval_basis_def)
  have sl: "shape loc = [2, 2, 1]" using loc(2) by simp
  from eval_global_derivatives_first_order [OF j sj b sl]
  obtain r where r: "eval_global_derivatives interval_space ?pts 1 = Inr r" "shape r = [2, 2, 2, 1]"
    "\<forall>e<2. \<forall>b<2. \<forall>p<2. \<forall>j<1. item r [e, b, p, j] =
        seq_sum (map (\<lambda>k. item ?inv_jac [e, p, k, j] * item loc [b, p, k]) [0..<1])"
    by blast
  from r(3) loc(3,4) have "item r [1, 0, 0, 0] = F64 (1 / 2)" "item r [1, 1, 0, 0] = F64 (- (1 / 2))"
    by (simp_all add: float64_half_products)
  with r(1,2) show ?thesis by blast
qed

section \<open>Boundary facets\<close>

lemma mask_set_subset:
  assumes "mask_set a m v = Inr r"
  shows "shape r = shape a \<and> (\<forall>idx. item r idx \<and> \<not> item m idx \<longrightarrow> item a idx)"
  using assms by (auto simp: mask_set_def split: if_splits elim!: bindE_Inr_result)

lemma boundary_part_mask_cong:
  assumes "g (transpose_array c) = fnc (transpose_array c)"
    and "\<forall>i row. getitem c [Ix (int i), Colon] = Inr row \<longrightarrow> g row = fnc row"
  shows "boundary_part_mask g c = boundary_part_mask fnc c"
proof -
  have "bindE (getitem c [Ix (int i), Colon]) (\<lambda>row. bindE (g row) (\<lambda>v. setitem s [Ix (int i)] v)) =
        bindE (getitem c [Ix (int i), Colon]) (\<lambda>row. bindE (fnc row) (\<lambda>v. setitem s [Ix (int i)] v))"
    for i and s :: "bool ndarray"
    using assms(2) by (cases "getitem c [Ix (int i), Colon]") auto
  then have "for_loop xs s (\<lambda>i part_mask. bindE (getitem c [Ix (int i), Colon])
                   (\<lambda>row. bindE (g row) (\<lambda>v. setitem part_mask [Ix (int i)] v))) =
             for_loop xs s (\<lambda>i part_mask. bindE (getitem c [Ix (int i), Colon])
                   (\<lambda>row. bindE (fnc row) (\<lambda>v. setitem part_mask [Ix (int i)] v)))"
    for xs s
    by (intro for_loop_cong)
  then show ?thesis
    by (simp only: boundary_part_mask_def assms(1))
qed

lemma boundary_centroids_average:
  fixes self :: "'a::{zero, one, plus, inverse} Mesh"
  assumes c: "boundary_centroids self bm = Inr c"
    and fs: "facets self = Inr fs" "shape fs = [nF, nV]"
    and nds: "shape (Mesh_nodes self) = [nN, D]"
    and bm: "shape bm = [nM]"
    and pos: "pos = filter (\<lambda>i. item bm [i]) [0..<nM]"
    and one: "\<forall>i<nF. \<forall>v<nV. 1 \<le> item fs [i, v]"
  shows "shape c = [length pos, D] \<and>
         (\<forall>f<length pos. \<forall>j<D.
            item c [f, j] =
              seq_sum (map (\<lambda>v. item (Mesh_nodes self) [nat (item fs [pos ! f, v] - 1), j])
                         [0..<nV]) / count_of nV)"
proof -
  from c fs(1) obtain fv fvc where
    fv: "compress0 fs bm = Inr fv"
    and fvc: "take0 (Mesh_nodes self) (map_array (\<lambda>v. v - 1) fv) = Inr fvc"
    and m: "np_mean fvc 1 = Inr c"
    by (auto simp: boundary_centroids_def elim!: bindE_Inr_result)
  from fv fs(2) bm pos have inb: "\<forall>i\<in>set pos. i < nF"
    and fv_eq: "fv = \<lparr>shape = [length pos, nV], item = (\<lambda>idx. item fs (pos ! hd idx # tl idx))\<rparr>"
    by (auto simp: compress0_def promote_0d_def Let_def list_all_iff split: if_splits)
  from fvc nds have fvc_sh: "shape fvc = [length pos, nV, D]"
    and fvc_item: "\<forall>f v j. item fvc [f, v, j] =
        (let t = item fs [pos ! f, v] - 1
         in item (Mesh_nodes self) [nat (if t < 0 then t + int nN else t), j])"
    by (auto simp: take0_def promote_0d_def Let_def fv_eq map_array_def split: if_splits)
  from m fvc_sh have sh: "shape c = [length pos, D]"
    and c_item: "\<forall>f j. item c [f, j] =
        seq_sum (map (\<lambda>v. item fvc [f, v, j]) [0..<nV]) / count_of nV"
    by (auto simp: np_mean_def np_sum_def normalize_axis_def map_array_def)
  have "item c [f, j] =
      seq_sum (map (\<lambda>v. item (Mesh_nodes self) [nat (item fs [pos ! f, v] - 1), j]) [0..<nV]) /
        count_of nV"
    if f: "f < length pos" and j: "j < D" for f j
  proof -
    have pf: "pos ! f < nF" using inb f by simp
    have "map (\<lambda>v. item fvc [f, v, j]) [0..<nV] =
          map (\<lambda>v. item (Mesh_nodes self) [nat (item fs [pos ! f, v] - 1), j]) [0..<nV]"
    proof (intro map_cong refl)
      fix v assume "v \<in> set [0..<nV]"
      then have "1 \<le> item fs [pos ! f, v]" using one pf by simp
      then show "item fvc [f, v, j] = item (Mesh_nodes self) [nat (item fs [pos ! f, v] - 1), j]"
        by (simp add: fvc_item Let_def)
    qed
    then show ?thesis using c_item by (simp del: map_eq_conv)
  qed
  with sh show ?thesis by blast
qed

text \<open>The result of broadcasting has as many axes as the longer operand.\<close>

lemma bshape_rev_length:
  "bshape_rev xs ys = Some zs \<Longrightarrow> length zs = max (length xs) (length ys)"
  by (induction xs ys arbitrary: zs rule: bshape_rev.induct) (auto split: if_splits)

lemma broadcast_shapes_length:
  "broadcast_shapes s t = Some sh \<Longrightarrow> length sh = max (length s) (length t)"
  by (auto simp: broadcast_shapes_def dest: bshape_rev_length)

text \<open>The loop of the fallback writes to entry \<open>i\<close> the truth value that the predicate
  returns for row \<open>i\<close> of the centroids.\<close>

lemma setitem_entry:
  assumes "setitem s [Ix (int i)] v = Inr s'" and "shape s = [n]"
  shows "i < n \<and> shape s' = [n] \<and> item s' [i] = item v (replicate (length (shape v)) 0) \<and>
         (\<forall>j. j \<noteq> i \<longrightarrow> item s' [j] = item s [j])"
  using assms
  by (auto simp: setitem_def broadcast_to_def Let_def bidx_def split: if_splits
      elim!: bindE_Inr_result)

lemma part_mask_loop:
  assumes "for_loop [0..<k] s0 (\<lambda>i part_mask. bindE (getitem c [Ix (int i), Colon])
             (\<lambda>row. bindE (fnc row) (\<lambda>v. setitem part_mask [Ix (int i)] v))) = Inr pm"
    and "shape s0 = [n]"
  shows "shape pm = [n] \<and>
         (\<forall>i<k. \<exists>row v. getitem c [Ix (int i), Colon] = Inr row \<and> fnc row = Inr v \<and>
                    item pm [i] = item v (replicate (length (shape v)) 0))"
  using assms
proof (induction k arbitrary: pm)
  case 0
  then show ?case by simp
next
  case (Suc k)
  let ?body = "\<lambda>i part_mask. bindE (getitem c [Ix (int i), Colon])
             (\<lambda>row. bindE (fnc row) (\<lambda>v. setitem part_mask [Ix (int i)] v))"
  from Suc.prems(1) obtain s where s: "for_loop [0..<k] s0 ?body = Inr s"
    and step: "?body k s = Inr pm"
    by (auto simp: for_loop_append elim!: bindE_Inr_result)
  from Suc.IH [OF s Suc.prems(2)] have sh: "shape s = [n]"
    and old: "\<forall>i<k. \<exists>row v. getitem c [Ix (int i), Colon] = Inr row \<and> fnc row = Inr v \<and>
                    item s [i] = item v (replicate (length (shape v)) 0)"
    by blast+
  from step obtain row v where row: "getitem c [Ix (int k), Colon] = Inr row"
    and v: "fnc row = Inr v" and set: "setitem s [Ix (int k)] v = Inr pm"
    by (auto elim!: bindE_Inr_result)
  from setitem_entry [OF set sh] have new: "shape pm = [n]"
      "item pm [k] = item v (replicate (length (shape v)) 0)"
      "\<forall>j. j \<noteq> k \<longrightarrow> item pm [j] = item s [j]"
    by blast+
  have "\<exists>row v. getitem c [Ix (int i), Colon] = Inr row \<and> fnc row = Inr v \<and>
                    item pm [i] = item v (replicate (length (shape v)) 0)" if "i < Suc k" for i
  proof (cases "i = k")
    case True
    then show ?thesis using row v new(2) by blast
  next
    case False
    then have "i < k" using that by simp
    then show ?thesis using old new(3) False by auto
  qed
  then show ?case using new(1) by blast
qed

lemma boundary_part_mask_values:
  assumes "boundary_part_mask fnc c = Inr pm"
  shows "fnc (transpose_array c) = Inr pm \<or>
         (\<exists>e. fnc (transpose_array c) = Inl e) \<and>
         (\<exists>n. np_size_axis c 0 = Inr n \<and> shape pm = [n] \<and>
            (\<forall>i<n. \<exists>row v. getitem c [Ix (int i), Colon] = Inr row \<and> fnc row = Inr v \<and>
                       item pm [i] = item v (replicate (length (shape v)) 0)))"
proof (cases "fnc (transpose_array c)")
  case (Inr m)
  then show ?thesis using assms by (simp add: boundary_part_mask_def)
next
  case (Inl e)
  with assms obtain n where n: "np_size_axis c 0 = Inr n"
    and loop: "for_loop [0..<n] (full [n] False) (\<lambda>i part_mask. bindE (getitem c [Ix (int i), Colon])
             (\<lambda>row. bindE (fnc row) (\<lambda>v. setitem part_mask [Ix (int i)] v))) = Inr pm"
    by (auto simp: boundary_part_mask_def elim!: bindE_Inr_result)
  have "shape (full [n] False) = [n]" by (simp add: full_def)
  from part_mask_loop [OF loop this] show ?thesis using Inl n by blast
qed

text \<open>Assignment through the boundary mask writes the \<open>k\<close>-th value to the \<open>k\<close>-th true
  position.\<close>

lemma distinct_rank:
  "distinct xs \<Longrightarrow> k < length xs \<Longrightarrow> length (takeWhile (\<lambda>j. j \<noteq> xs ! k) xs) = k"
proof (induction xs arbitrary: k)
  case Nil
  then show ?case by simp
next
  case (Cons x xs)
  then show ?case by (cases k) auto
qed

lemma distinct_true_positions: "distinct (true_positions m)"
  by (auto simp: true_positions_def indices_of_def intro!: distinct_filter distinct_product_lists)

lemma true_positions_true:
  "k < length (true_positions m) \<Longrightarrow> item m (true_positions m ! k)"
  using nth_mem [of k "true_positions m"] by (simp add: true_positions_def)

lemma mask_set_entries:
  assumes sel: "mask_get bm bm = Inr sel"
    and v: "binop (\<and>) sel pm = Inr v"
    and r: "mask_set bm bm v = Inr r"
    and k: "k < length (true_positions bm)"
  shows "item r (true_positions bm ! k) = item pm (bidx (shape pm) [k])"
proof -
  let ?n = "length (true_positions bm)"
  from sel have sel_sh: "shape sel = [?n]"
    and sel_item: "item sel [k] = item bm (true_positions bm ! k)"
    by (auto simp: mask_get_def split: if_splits)
  from v obtain sh where sh: "broadcast_shapes [?n] (shape pm) = Some sh"
    and v_sh: "shape v = sh"
    and v_item: "\<forall>idx. item v idx = (item sel (bidx [?n] idx) \<and> item pm (bidx (shape pm) idx))"
    by (auto simp: binop_def sel_sh split: option.splits)
  from r obtain w where one: "length sh \<le> 1"
    and w: "broadcast_to v [?n] = Inr w"
    and r_item: "\<forall>idx. item r idx = (if item bm idx
          then item w [length (takeWhile (\<lambda>j. j \<noteq> idx) (true_positions bm))] else item bm idx)"
    by (auto simp: mask_set_def v_sh split: if_splits elim!: bindE_Inr_result)
  from broadcast_shapes_length [OF sh] one obtain m where m: "sh = [m]"
    by (cases sh) auto
  from w have bs: "broadcast_shapes [m] [?n] = Some [?n]"
    and w_item: "item w [k] = item v (bidx [m] [k])"
    by (auto simp: broadcast_to_def v_sh m Let_def split: if_splits)
  have pm_len: "length (shape pm) \<le> 1"
    using broadcast_shapes_length [OF sh] m by simp
  have mn: "m = ?n"
  proof (cases "shape pm")
    case Nil
    then show ?thesis using sh m by (simp add: broadcast_shapes_def)
  next
    case (Cons y ys)
    then have "shape pm = [y]" using pm_len by simp
    then show ?thesis using sh m bs by (auto simp: broadcast_shapes_def split: if_splits)
  qed
  have kk: "bidx [?n] [k] = [k]" using k by (auto simp: bidx_def)
  have "item r (true_positions bm ! k) = item w [k]"
    using r_item true_positions_true [OF k] distinct_rank [OF distinct_true_positions k] by simp
  also have "\<dots> = item v [k]" using w_item mn kk by simp
  also have "\<dots> = (item sel [k] \<and> item pm (bidx (shape pm) [k]))" using v_item kk by simp
  also have "\<dots> = item pm (bidx (shape pm) [k])"
    using sel_item true_positions_true [OF k] by simp
  finally show ?thesis .
qed

lemma true_positions_vector:
  assumes "shape m = [n]"
  shows "true_positions m = map (\<lambda>i. [i]) (filter (\<lambda>i. item m [i]) [0..<n])"
  using assms by (simp add: true_positions_def indices_of_def filter_map comp_def)

text \<open>
  C9.  When \<^verbatim>\<open>Mesh.boundary\<close> returns a mask \<open>r\<close> for a predicate, the call without
  predicate returns the boundary mask \<open>bm\<close> of the topology, the two masks have the same
  shape, and \<open>r\<close> is true only where \<open>bm\<close> is.  The part mask \<open>pm\<close> is what the predicate
  returns for the transposed array of centroids or, when that call raises, the vector of
  the truth values that it returns for the single centroids, one call per row.  At the
  \<open>k\<close>-th true position of \<open>bm\<close> the entry of \<open>r\<close> is the \<open>k\<close>-th entry of \<open>pm\<close> (its only
  entry, when \<open>pm\<close> has one), so that \<open>r\<close> is the intersection of \<open>bm\<close> with the predicate's
  values.  The result depends on the predicate only through its results on the transposed
  array of centroids and on the single centroids: any predicate that agrees with it there
  gives the same mask.  For a facet table of \<open>nV\<close> vertices per facet with indices from 1,
  a node table with \<open>D\<close> columns and a boundary mask with one axis, the centroid array has
  one row per true entry of the boundary mask; row \<open>f\<close> is the sum of the coordinates of
  the vertices of the \<open>f\<close>-th boundary facet divided by \<open>nV\<close>, and the entry of \<open>r\<close> at that
  facet is entry \<open>f\<close> of the part mask.
\<close>

theorem boundary_with_predicate:
  fixes self :: "'a::{zero, one, plus, inverse} Mesh"
  assumes "boundary self (Some fnc) = Inr r"
  shows "\<exists>bm c pm. boundary self None = Inr bm \<and> shape r = shape bm \<and>
           (\<forall>idx. item r idx \<longrightarrow> item bm idx) \<and>
           boundary_centroids self bm = Inr c \<and>
           (fnc (transpose_array c) = Inr pm \<or>
            (\<exists>e. fnc (transpose_array c) = Inl e) \<and>
            (\<exists>n. np_size_axis c 0 = Inr n \<and> shape pm = [n] \<and>
               (\<forall>i<n. \<exists>row v. getitem c [Ix (int i), Colon] = Inr row \<and> fnc row = Inr v \<and>
                          item pm [i] = item v (replicate (length (shape v)) 0)))) \<and>
           (\<forall>k<length (true_positions bm).
              item r (true_positions bm ! k) = item pm (bidx (shape pm) [k])) \<and>
           (\<forall>g. g (transpose_array c) = fnc (transpose_array c) \<and>
                (\<forall>i row. getitem c [Ix (int i), Colon] = Inr row \<longrightarrow> g row = fnc row) \<longrightarrow>
                boundary self (Some g) = Inr r) \<and>
           (\<forall>fs nF nV nN D nM.
              facets self = Inr fs \<and> shape fs = [nF, nV] \<and> shape (Mesh_nodes self) = [nN, D] \<and>
              shape bm = [nM] \<and> (\<forall>i<nF. \<forall>v<nV. 1 \<le> item fs [i, v]) \<longrightarrow>
              shape c = [length (filter (\<lambda>i. item bm [i]) [0..<nM]), D] \<and>
              (\<forall>f<length (filter (\<lambda>i. item bm [i]) [0..<nM]).
                 item r [filter (\<lambda>i. item bm [i]) [0..<nM] ! f] = item pm (bidx (shape pm) [f]) \<and>
                 (\<forall>j<D.
                    item c [f, j] =
                      seq_sum (map (\<lambda>v. item (Mesh_nodes self)
                          [nat (item fs [filter (\<lambda>i. item bm [i]) [0..<nM] ! f, v] - 1), j]) [0..<nV]) /
                        count_of nV)))"
proof -
  from assms obtain bm c pm sel v where
    bm: "get_boundary (topology self) (int (Mesh.dimension self) - 1) = Inr bm"
    and c: "boundary_centroids self bm = Inr c"
    and pm: "boundary_part_mask fnc c = Inr pm"
    and sel: "mask_get bm bm = Inr sel"
    and v: "binop (\<and>) sel pm = Inr v"
    and r: "mask_set bm bm v = Inr r"
    by (auto simp: boundary_def elim!: bindE_Inr_result)
  have none: "boundary self None = Inr bm"
    using bm by (simp add: boundary_def)
  have sub: "shape r = shape bm" "\<forall>idx. item r idx \<longrightarrow> item bm idx"
    using mask_set_subset [OF r] by auto
  note vals = boundary_part_mask_values [OF pm]
  have ent: "\<forall>k<length (true_positions bm).
      item r (true_positions bm ! k) = item pm (bidx (shape pm) [k])"
    using mask_set_entries [OF sel v r] by blast
  have ext: "boundary self (Some g) = Inr r"
    if "g (transpose_array c) = fnc (transpose_array c) \<and>
        (\<forall>i row. getitem c [Ix (int i), Colon] = Inr row \<longrightarrow> g row = fnc row)" for g
  proof -
    have "boundary_part_mask g c = Inr pm"
      using boundary_part_mask_cong [of g c fnc] that pm by simp
    then show ?thesis
      using bm c sel v r by (simp add: boundary_def)
  qed
  have avg: "shape c = [length (filter (\<lambda>i. item bm [i]) [0..<nM]), D] \<and>
              (\<forall>f<length (filter (\<lambda>i. item bm [i]) [0..<nM]).
                 item r [filter (\<lambda>i. item bm [i]) [0..<nM] ! f] = item pm (bidx (shape pm) [f]) \<and>
                 (\<forall>j<D.
                    item c [f, j] =
                      seq_sum (map (\<lambda>v. item (Mesh_nodes self)
                          [nat (item fs [filter (\<lambda>i. item bm [i]) [0..<nM] ! f, v] - 1), j]) [0..<nV]) /
                        count_of nV))"
    if h: "facets self = Inr fs \<and> shape fs = [nF, nV] \<and> shape (Mesh_nodes self) = [nN, D] \<and>
              shape bm = [nM] \<and> (\<forall>i<nF. \<forall>v<nV. 1 \<le> item fs [i, v])" for fs nF nV nN D nM
  proof -
    from h have tp: "true_positions bm = map (\<lambda>i. [i]) (filter (\<lambda>i. item bm [i]) [0..<nM])"
      by (simp add: true_positions_vector)
    have "item r [filter (\<lambda>i. item bm [i]) [0..<nM] ! f] = item pm (bidx (shape pm) [f])"
      if "f < length (filter (\<lambda>i. item bm [i]) [0..<nM])" for f
      using ent [THEN spec, of f] that by (simp add: tp)
    then show ?thesis
      using boundary_centroids_average [OF c, of fs nF nV nN D nM] h by blast
  qed
  have ext': "\<forall>g. g (transpose_array c) = fnc (transpose_array c) \<and>
                (\<forall>i row. getitem c [Ix (int i), Colon] = Inr row \<longrightarrow> g row = fnc row) \<longrightarrow>
                boundary self (Some g) = Inr r"
    using ext by blast
  have avg': "\<forall>fs nF nV nN D nM.
              facets self = Inr fs \<and> shape fs = [nF, nV] \<and> shape (Mesh_nodes self) = [nN, D] \<and>
              shape bm = [nM] \<and> (\<forall>i<nF. \<forall>v<nV. 1 \<le> item fs [i, v]) \<longrightarrow>
              shape c = [length (filter (\<lambda>i. item bm [i]) [0..<nM]), D] \<and>
              (\<forall>f<length (filter (\<lambda>i. item bm [i]) [0..<nM]).
                 item r [filter (\<lambda>i. item bm [i]) [0..<nM] ! f] = item pm (bidx (shape pm) [f]) \<and>
                 (\<forall>j<D.
                    item c [f, j] =
                      seq_sum (map (\<lambda>v. item (Mesh_nodes self)
                          [nat (item fs [filter (\<lambda>i. item bm [i]) [0..<nM] ! f, v] - 1), j]) [0..<nV]) /
                        count_of nV))"
    using avg by blast
  show ?thesis
    by (intro exI [of _ bm] exI [of _ c] exI [of _ pm] conjI none sub c vals ent ext' avg')
qed

lemma true_positions_interval:
  "true_positions (vector [True, False, True]) = [[0], [2]]"
  by (simp add: true_positions_def vector_def indices_of_def upt_3)

lemma centroids_interval_defined:
  "\<exists>c. boundary_centroids interval_mesh (vector [True, False, True]) = Inr c \<and> shape c = [2, 1]"
proof -
  have "\<exists>fv. compress0 (matrix 1 [[1], [2], [3 :: int]]) (vector [True, False, True]) = Inr fv \<and>
          shape fv = [2, 1] \<and> item fv [0, 0] = 1 \<and> item fv [1, 0] = 3"
    by (simp add: compress0_def promote_0d_def matrix_def vector_def upt_3 Let_def)
  then obtain fv where fv: "compress0 (matrix 1 [[1], [2], [3 :: int]]) (vector [True, False, True]) = Inr fv"
      "shape fv = [2, 1]" "item fv [0, 0] = 1" "item fv [1, 0] = 3"
    by blast
  have "\<exists>fvc. take0 (matrix 1 [[F64 0], [F64 1], [F64 3]]) (map_array (\<lambda>v. v - 1) fv) = Inr fvc \<and>
          shape fvc = [2, 1, 1]"
    using fv(2,3,4)
    by (simp add: take0_def promote_0d_def matrix_def map_array_def array_all_def indices_of_def
        upt_2 Let_def)
  then obtain fvc where fvc: "take0 (matrix 1 [[F64 0], [F64 1], [F64 3]]) (map_array (\<lambda>v. v - 1) fv) = Inr fvc"
      "shape fvc = [2, 1, 1]"
    by blast
  have "\<exists>c. np_mean fvc 1 = Inr c \<and> shape c = [2, 1]"
    using fvc(2) by (simp add: np_mean_def np_sum_def normalize_axis_def map_array_def)
  then show ?thesis
    using fv(1) fvc(1)
    by (simp add: boundary_centroids_def facets_def Mesh_nodes_def interval_mesh_def)
qed

lemma dir_domain_vectorized:
  assumes "shape c = [n, Suc m]"
  shows "\<exists>pm. boundary_part_mask dir_domain c = Inr pm \<and> shape pm = [n]"
  using assms
  by (simp add: boundary_part_mask_def dir_domain_def transpose_array_def getitem_def binop_def
      broadcast_shapes_def map_array_def)

lemma boundary_interval_defined:
  "\<exists>r. boundary interval_mesh (Some dir_domain) = Inr r"
proof -
  let ?bm = "vector [True, False, True]"
  have bm: "get_boundary (topology interval_mesh) (int (Mesh.dimension interval_mesh) - 1) = Inr ?bm"
    by (simp add: interval_mesh_def)
  obtain c where c: "boundary_centroids interval_mesh ?bm = Inr c" "shape c = [2, 1]"
    using centroids_interval_defined by blast
  obtain pm where pm: "boundary_part_mask dir_domain c = Inr pm" "shape pm = [2]"
    using dir_domain_vectorized [of c 2 0] c(2) by auto
  obtain sel where sel: "mask_get ?bm ?bm = Inr sel" "shape sel = [2]"
    by (simp add: mask_get_def true_positions_interval)
  obtain v where v: "binop (\<and>) sel pm = Inr v" "shape v = [2]"
    using sel(2) pm(2) by (simp add: binop_def broadcast_shapes_def)
  have "\<exists>r. mask_set ?bm ?bm v = Inr r"
    using v(2) by (simp add: mask_set_def true_positions_interval broadcast_to_def broadcast_shapes_def)
  then show ?thesis
    using bm c(1) pm(1) sel(1) v(1) by (simp add: boundary_def)
qed

lemma float64_three_over_one: "seq_sum [F64 3] / (0 + 1) = F64 3"
  by (simp add: seq_sum_def float64_eval round64_eval)

lemma float64_zero_over_one: "seq_sum [F64 0] / (0 + 1) = F64 0"
  by (simp add: seq_sum_def float64_eval round64_eval)

lemma dir_domain_two_centroids:
  fixes c :: "float64 ndarray"
  assumes "shape c = [2, 1]" and "item c [0, 0] = F64 0" and "item c [1, 0] = F64 3"
  shows "\<exists>pm. dir_domain (transpose_array c) = Inr pm \<and> shape pm = [2] \<and>
           item pm [0] \<and> \<not> item pm [1]"
  using assms
  by (simp add: dir_domain_def transpose_array_def getitem_def binop_def broadcast_shapes_def
      map_array_def bidx_def float64_eval)

theorem boundary_with_predicate_witness:
  "\<exists>r bm c pm. boundary interval_mesh (Some dir_domain) = Inr r \<and>
      boundary interval_mesh None = Inr bm \<and>
      shape bm = [3] \<and> item bm [0] \<and> \<not> item bm [1] \<and> item bm [2] \<and>
      boundary_centroids interval_mesh bm = Inr c \<and>
      shape c = [2, 1] \<and> item c [0, 0] = F64 0 \<and> item c [1, 0] = F64 3 \<and>
      dir_domain (transpose_array c) = Inr pm \<and> item pm [0] \<and> \<not> item pm [1] \<and>
      shape r = [3] \<and> item r [0] \<and> \<not> item r [1] \<and> \<not> item r [2]"
proof -
  obtain r where r: "boundary interval_mesh (Some dir_domain) = Inr r"
    using boundary_interval_defined by blast
  let ?fs = "matrix 1 [[1], [2], [3 :: int]]"
  from boundary_with_predicate [OF r]
  obtain bm c pm where bm: "boundary interval_mesh None = Inr bm" "shape r = shape bm"
      "\<forall>idx. item r idx \<longrightarrow> item bm idx"
    and c: "boundary_centroids interval_mesh bm = Inr c"
    and vals: "dir_domain (transpose_array c) = Inr pm \<or>
            (\<exists>e. dir_domain (transpose_array c) = Inl e) \<and>
            (\<exists>n. np_size_axis c 0 = Inr n \<and> shape pm = [n] \<and>
               (\<forall>i<n. \<exists>row v. getitem c [Ix (int i), Colon] = Inr row \<and> dir_domain row = Inr v \<and>
                          item pm [i] = item v (replicate (length (shape v)) 0)))"
    and avg_all: "\<forall>fs nF nV nN D nM.
        facets interval_mesh = Inr fs \<and> shape fs = [nF, nV] \<and>
        shape (Mesh_nodes interval_mesh) = [nN, D] \<and> shape bm = [nM] \<and>
        (\<forall>i<nF. \<forall>v<nV. 1 \<le> item fs [i, v]) \<longrightarrow>
        shape c = [length (filter (\<lambda>i. item bm [i]) [0..<nM]), D] \<and>
        (\<forall>f<length (filter (\<lambda>i. item bm [i]) [0..<nM]).
           item r [filter (\<lambda>i. item bm [i]) [0..<nM] ! f] = item pm (bidx (shape pm) [f]) \<and>
           (\<forall>j<D.
              item c [f, j] =
                seq_sum (map (\<lambda>v. item (Mesh_nodes interval_mesh)
                    [nat (item fs [filter (\<lambda>i. item bm [i]) [0..<nM] ! f, v] - 1), j]) [0..<nV]) /
                  count_of nV))"
    by (elim exE conjE) (rule that; assumption)
  note avg = avg_all [THEN spec, THEN spec, THEN spec, THEN spec, THEN spec, THEN spec,
      of ?fs 3 1 3 1 3]
  have bm_eq: "bm = vector [True, False, True]"
    using bm(1) by (simp add: boundary_def interval_mesh_def)
  have bm_items: "shape bm = [3]" "item bm [0]" "\<not> item bm [1]" "item bm [2]"
    by (simp_all add: bm_eq vector_def)
  have items: "\<forall>i<3. \<forall>v<1. 1 \<le> item ?fs [i, v]"
    by (auto simp: matrix_def less_Suc_eq numeral_3_eq_3)
  have pos: "filter ((!) [True, False, True]) [0..<3] = [0, 2]"
    by (simp add: upt_3)
  have "shape c = [2, 1] \<and>
      (\<forall>f<2. item r [[0, 2] ! f] = item pm (bidx (shape pm) [f]) \<and>
         item c [f, 0] =
         seq_sum [[[F64 0], [F64 1], [F64 3]] ! nat ([[1], [2], [3]] ! ([0, 2] ! f) ! 0 - 1) ! 0] /
           count_of (Suc 0))"
    using avg items
    by (simp add: pos facets_def Mesh_nodes_def interval_mesh_def bm_eq vector_def matrix_def)
  then have cc: "shape c = [2, 1]" "item c [0, 0] = F64 0" "item c [1, 0] = F64 3"
    and rr: "item r [0] = item pm (bidx (shape pm) [0])"
            "item r [2] = item pm (bidx (shape pm) [1])"
    by (simp_all add: float64_three_over_one float64_zero_over_one less_Suc_eq numeral_2_eq_2)
  from dir_domain_two_centroids [OF cc] vals
  have pm: "dir_domain (transpose_array c) = Inr pm" "shape pm = [2]" "item pm [0]" "\<not> item pm [1]"
    by auto
  have r0: "item r [0]" and r2: "\<not> item r [2]"
    using rr pm by (simp_all add: bidx_def)
  have r1: "\<not> item r [1]" using bm(3) bm_items(3) by blast
  have r_sh: "shape r = [3]" using bm(2) bm_items(1) by simp
  show ?thesis
    by (intro exI [of _ r] exI [of _ bm] exI [of _ c] exI [of _ pm] conjI
        r bm(1) bm_items c cc pm(1,3,4) r_sh r0 r1 r2)
qed

end
